theory Spec2Isabelle
  imports Complex_Main
begin

section \<open>Lane tracking of p2.py: data model\<close>

text \<open>
  The embedding follows \<^verbatim>\<open>p2.py\<close>. Numbers that the program holds as numpy
  floats are reals here; pixel coordinates and counters are Python integers, so
  \<^typ>\<open>int\<close>. Every \<^verbatim>\<open>raise\<close> of the interpreter or of numpy that the
  modelled lines can reach is a value of \<open>error\<close>, returned as \<open>Inl\<close>.
\<close>

datatype error =
  AttributeError | IndexError | ValueError | TypeError | OverflowError | LinAlgError

datatype Side = LEFT | RIGHT

text \<open>Sequencing: an error of the first step ends the computation.\<close>

definition ebind :: "error + 'a \<Rightarrow> ('a \<Rightarrow> error + 'b) \<Rightarrow> error + 'b" where
  "ebind m f = (case m of Inl e \<Rightarrow> Inl e | Inr v \<Rightarrow> f v)"

definition METERS_PER_PIXEL_X :: real where
  "METERS_PER_PIXEL_X = 37 / 10 / 700"

definition METERS_PER_PIXEL_Y :: real where
  "METERS_PER_PIXEL_Y = 30 / 720"

definition AVERAGE_OVER_X_FRAMES :: int where
  "AVERAGE_OVER_X_FRAMES = 7"

definition MIN_PIXELS_FOR_VALID_LINE :: int where
  "MIN_PIXELS_FOR_VALID_LINE = 3000"

definition SLOPE_TOLERANCE :: real where
  "SLOPE_TOLERANCE = 12 / 10"

text \<open>
  A numpy float that a division produced: numpy does not raise on a float
  division by zero, it warns and yields infinity. The only division of the
  program has a numerator of at least 1, so the quotient by zero is \<open>+inf\<close>.
\<close>

datatype np_float = Finite real | PosInf

definition np_true_divide :: "real \<Rightarrow> real \<Rightarrow> np_float" where
  "np_true_divide n d = (if d = 0 then PosInf else Finite (n / d))"

text \<open>
  The three coefficients \<open>(a, b, c)\<close> of \<open>x = a * y\<^sup>2 + b * y + c\<close>, highest power
  first, as \<^verbatim>\<open>np.polyfit(..., 2)\<close> returns them.
\<close>

type_synonym coeffs = "real \<times> real \<times> real"

text \<open>
  \<^verbatim>\<open>np.polyfit\<close> is numpy's, not the program's: the least-squares solver is a
  parameter \<open>pf\<close> of the model, applied as \<open>pf abscissae ordinates\<close>. The ways
  in which numpy raises instead of returning coefficients are written out:
  \<^item> an empty abscissa vector and vectors of different lengths raise
    \<^verbatim>\<open>TypeError\<close> before anything is solved;
  \<^item> numpy divides each column \<open>x\<^sup>2\<close>, \<open>x\<close>, \<open>1\<close> of the design matrix by its norm.
    When every abscissa is 0 the first two columns are zero, the division is
    \<open>0/0\<close>, and the solver raises \<^verbatim>\<open>LinAlgError\<close> on the resulting \<open>nan\<close>.
\<close>

type_synonym polyfit = "real list \<Rightarrow> real list \<Rightarrow> coeffs"

definition np_polyfit :: "polyfit \<Rightarrow> real list \<Rightarrow> real list \<Rightarrow> error + coeffs" where
  "np_polyfit pf x y =
     (if x = [] then Inl TypeError
      else if length x \<noteq> length y then Inl TypeError
      else if list_all (\<lambda>v. v = 0) x then Inl LinAlgError
      else Inr (pf x y))"

subsection \<open>Least squares, in exact arithmetic\<close>



text \<open>
  The minimiser itself, by Cramer's rule on the normal equations. It is the
  unique least-squares fit whenever the determinant of the normal equations is
  not zero (\<open>regular\<close>: at least three distinct abscissae), and it stands for
  \<^verbatim>\<open>np.polyfit\<close> wherever an example needs a concrete fitting routine.
\<close>

definition det3 ::
  "real \<Rightarrow> real \<Rightarrow> real \<Rightarrow> real \<Rightarrow> real \<Rightarrow> real \<Rightarrow> real \<Rightarrow> real \<Rightarrow> real \<Rightarrow> real" where
  "det3 a b c d e f g h i = a * (e * i - f * h) - b * (d * i - f * g) + c * (d * h - e * g)"

definition moment :: "nat \<Rightarrow> real list \<Rightarrow> real list \<Rightarrow> real" where
  "moment k ys xs = sum_list (map2 (\<lambda>y x. y ^ k) ys xs)"

definition cross_moment :: "nat \<Rightarrow> real list \<Rightarrow> real list \<Rightarrow> real" where
  "cross_moment k ys xs = sum_list (map2 (\<lambda>y x. x * y ^ k) ys xs)"

definition regular :: "real list \<Rightarrow> real list \<Rightarrow> bool" where
  "regular ys xs =
     (det3 (moment 4 ys xs) (moment 3 ys xs) (moment 2 ys xs)
           (moment 3 ys xs) (moment 2 ys xs) (moment 1 ys xs)
           (moment 2 ys xs) (moment 1 ys xs) (moment 0 ys xs) \<noteq> 0)"

definition normal_equations :: "coeffs \<Rightarrow> real list \<Rightarrow> real list \<Rightarrow> bool" where
  "normal_equations p ys xs =
     (case p of (a, b, c) \<Rightarrow>
        moment 4 ys xs * a + moment 3 ys xs * b + moment 2 ys xs * c = cross_moment 2 ys xs \<and>
        moment 3 ys xs * a + moment 2 ys xs * b + moment 1 ys xs * c = cross_moment 1 ys xs \<and>
        moment 2 ys xs * a + moment 1 ys xs * b + moment 0 ys xs * c = cross_moment 0 ys xs)"

definition lstsq2 :: polyfit where
  "lstsq2 ys xs =
     (let s0 = moment 0 ys xs; s1 = moment 1 ys xs; s2 = moment 2 ys xs;
          s3 = moment 3 ys xs; s4 = moment 4 ys xs;
          t0 = cross_moment 0 ys xs; t1 = cross_moment 1 ys xs; t2 = cross_moment 2 ys xs;
          D = det3 s4 s3 s2 s3 s2 s1 s2 s1 s0
      in (det3 t2 s3 s2 t1 s2 s1 t0 s1 s0 / D,
          det3 s4 t2 s2 s3 t1 s1 s2 t0 s0 / D,
          det3 s4 s3 t2 s3 s2 t1 s2 s1 t0 / D))"

text \<open>\<^verbatim>\<open>np.max\<close> and \<^verbatim>\<open>np.min\<close> raise \<^verbatim>\<open>ValueError\<close> on an empty array.\<close>

definition np_max :: "real list \<Rightarrow> error + real" where
  "np_max xs = (case xs of [] \<Rightarrow> Inl ValueError | x # rest \<Rightarrow> Inr (fold max rest x))"

definition np_min :: "real list \<Rightarrow> error + real" where
  "np_min xs = (case xs of [] \<Rightarrow> Inl ValueError | x # rest \<Rightarrow> Inr (fold min rest x))"

text \<open>Indexing a Python list or a numpy array: a negative index counts from the end.\<close>

definition py_index :: "'a list \<Rightarrow> int \<Rightarrow> error + 'a" where
  "py_index xs i =
     (if 0 \<le> i \<and> i < int (length xs) then Inr (xs ! nat i)
      else if i < 0 \<and> - int (length xs) \<le> i then Inr (xs ! nat (int (length xs) + i))
      else Inl IndexError)"

text \<open>\<^verbatim>\<open>np.linspace(0, height-1, height)\<close>: the values \<open>0, 1, ..., height - 1\<close>.\<close>

definition linspace0 :: "nat \<Rightarrow> real list" where
  "linspace0 height = map real [0..<height]"

definition polyval :: "coeffs \<Rightarrow> real \<Rightarrow> real" where
  "polyval p y = (case p of (a, b, c) \<Rightarrow> (a * y ^ 2) + (b * y) + c)"

subsection \<open>The Line class\<close>

text \<open>
  \<^verbatim>\<open>line_coefficients\<close>, \<^verbatim>\<open>curvature\<close> and the three slopes are attributes that
  \<^verbatim>\<open>__init__\<close> sets only in the branch that fits; an attribute never set is
  \<open>None\<close>, and reading it is \<^verbatim>\<open>AttributeError\<close>.
\<close>

record Line =
  fitx :: "real list"
  fity :: "real list"
  lane_pixels_x :: "int list"
  lane_pixels_y :: "int list"
  detected :: bool
  line_coefficients :: "coeffs option"
  curvature :: "np_float option"
  upper_slope :: "real option"
  mid_slope :: "real option"
  lower_slope :: "real option"

definition slope_at :: "coeffs \<Rightarrow> real \<Rightarrow> real" where
  "slope_at p y = (case p of (a, b, c) \<Rightarrow> (2 * a * y) + b)"

definition curvature_radius :: "coeffs \<Rightarrow> real \<Rightarrow> np_float" where
  "curvature_radius world_poly maxy =
     (case world_poly of (a, b, c) \<Rightarrow>
        np_true_divide ((1 + ((2 * a * maxy) + b) ^ 2) powr (3 / 2)) \<bar>2 * a\<bar>)"

definition Line_init :: "polyfit \<Rightarrow> int list \<Rightarrow> int list \<Rightarrow> nat \<Rightarrow> bool \<Rightarrow> error + Line" where
  "Line_init pf x_pixels y_pixels height detected0 =
     (if length y_pixels > 0 \<and> length x_pixels > 0 then
        ebind (np_polyfit pf (map real_of_int y_pixels) (map real_of_int x_pixels)) (\<lambda>cs.
          let fy = linspace0 height;
              fx = map (polyval cs) fy;
              wy = map (\<lambda>y. y * METERS_PER_PIXEL_Y) fy;
              wx = map (\<lambda>x. x * METERS_PER_PIXEL_X) fx
          in
        ebind (np_max wy) (\<lambda>maxy.
        ebind (np_polyfit pf wy wx) (\<lambda>world_poly.
        ebind (py_index fy 0) (\<lambda>y_top.
        ebind (py_index fy (int height div 2)) (\<lambda>y_mid.
        ebind (py_index fy (int height - 1)) (\<lambda>y_bot.
          Inr \<lparr> fitx = fx, fity = fy,
                lane_pixels_x = x_pixels, lane_pixels_y = y_pixels,
                detected = detected0,
                line_coefficients = Some cs,
                curvature = Some (curvature_radius world_poly maxy),
                upper_slope = Some (slope_at cs y_top),
                mid_slope = Some (slope_at cs y_mid),
                lower_slope = Some (slope_at cs y_bot) \<rparr>))))))
      else
        Inr \<lparr> fitx = [], fity = [],
              lane_pixels_x = x_pixels, lane_pixels_y = y_pixels,
              detected = False,
              line_coefficients = None, curvature = None,
              upper_slope = None, mid_slope = None, lower_slope = None \<rparr>)"

text \<open>
  \<^verbatim>\<open>isValid\<close>: a chain of \<^verbatim>\<open>and\<close>, evaluated left to right and stopping at the
  first false operand. The length test on the coefficients is always true of a
  degree-2 fit; it still reads the attribute. In the last three operands the
  source takes \<^verbatim>\<open>abs\<close> of the comparison, \<^verbatim>\<open>abs(slope < SLOPE_TOLERANCE)\<close>, and
  the absolute value of a boolean is that boolean.
\<close>

definition read_attr :: "'a option \<Rightarrow> error + 'a" where
  "read_attr a = (case a of None \<Rightarrow> Inl AttributeError | Some v \<Rightarrow> Inr v)"

definition isValid :: "Line \<Rightarrow> error + bool" where
  "isValid l =
     (if \<not> detected l then Inr False
      else ebind (read_attr (line_coefficients l)) (\<lambda>cs.
        if \<not> (int (length (lane_pixels_x l)) > MIN_PIXELS_FOR_VALID_LINE) then Inr False
        else ebind (read_attr (upper_slope l)) (\<lambda>up.
             ebind (read_attr (lower_slope l)) (\<lambda>lo.
               if \<not> (\<bar>up - lo\<bar> < 12 / 10) then Inr False
               else if \<not> (up < SLOPE_TOLERANCE) then Inr False
               else ebind (read_attr (mid_slope l)) (\<lambda>mi.
                 if \<not> (mi < SLOPE_TOLERANCE) then Inr False
                 else Inr (lo < SLOPE_TOLERANCE))))))"


text \<open>
  \<^verbatim>\<open>getLowestLinePoint\<close>: the polynomial at the largest sampled \<open>y\<close>. A line that
  was never fitted has an empty \<^verbatim>\<open>fity\<close>, on which \<^verbatim>\<open>np.max\<close> raises.
\<close>

definition getLowestLinePoint :: "Line \<Rightarrow> error + real" where
  "getLowestLinePoint l =
     ebind (np_max (fity l)) (\<lambda>y.
     ebind (read_attr (line_coefficients l)) (\<lambda>cs.
       Inr (polyval cs y)))"

subsection \<open>measure_offset\<close>

text \<open>
  Python's \<^verbatim>\<open>round(v, 2)\<close> on a numpy float rounds \<open>100 * v\<close> to the nearest
  integer, a tie to the even one, and divides by 100.
\<close>

definition round_half_even :: "real \<Rightarrow> int" where
  "round_half_even v =
     (let f = \<lfloor>v\<rfloor>; d = v - of_int f
      in if d < 1 / 2 then f
         else if d > 1 / 2 then f + 1
         else if even f then f else f + 1)"

definition py_round2 :: "real \<Rightarrow> real" where
  "py_round2 v = of_int (round_half_even (v * 100)) / 100"

definition measure_offset :: "Line \<Rightarrow> Line \<Rightarrow> int \<Rightarrow> error + real" where
  "measure_offset left_line right_line width =
     ebind (getLowestLinePoint right_line) (\<lambda>rightmax.
     ebind (getLowestLinePoint left_line) (\<lambda>leftmax.
       let lane_center = (rightmax + leftmax) / 2;
           center_screen = real_of_int width / 2
       in Inr (py_round2 ((center_screen - lane_center) * METERS_PER_PIXEL_X))))"

subsection \<open>Frames and the tracker's globals\<close>

text \<open>
  \<^verbatim>\<open>Frame.__init__\<close> leaves both lines \<^verbatim>\<open>None\<close>; \<^verbatim>\<open>process_frame\<close> assigns them
  before it appends the frame. The globals \<^verbatim>\<open>FRAMES\<close> and \<^verbatim>\<open>frame_number\<close> are the
  state that is passed along.
\<close>

record Frame =
  fr_frame_number :: int
  left_line :: "Line option"
  right_line :: "Line option"

definition Frame_init :: "int \<Rightarrow> Frame" where
  "Frame_init number = \<lparr> fr_frame_number = number, left_line = None, right_line = None \<rparr>"

record tracker =
  FRAMES :: "Frame list"
  frame_number :: int

definition initial_tracker :: tracker where
  "initial_tracker = \<lparr> FRAMES = [], frame_number = - 1 \<rparr>"

definition side_line :: "Side \<Rightarrow> Frame \<Rightarrow> Line option" where
  "side_line side fr = (case side of LEFT \<Rightarrow> left_line fr | RIGHT \<Rightarrow> right_line fr)"

subsection \<open>getLastValidLines\<close>

text \<open>
  The \<^verbatim>\<open>while\<close> loop, with its three variables as arguments. Calling \<^verbatim>\<open>isValid\<close>
  on a line that is \<^verbatim>\<open>None\<close> is \<^verbatim>\<open>AttributeError\<close>.
\<close>

function getLastValidLines_loop ::
  "Frame list \<Rightarrow> Side \<Rightarrow> int \<Rightarrow> int \<Rightarrow> Line list \<Rightarrow> error + Line list" where
  "getLastValidLines_loop frames side frame_num count valid_lines =
     (if frame_num \<ge> 0 \<and> count > 0 then
        ebind (py_index frames frame_num) (\<lambda>prev_frame.
        ebind (read_attr (side_line side prev_frame)) (\<lambda>line.
        ebind (isValid line) (\<lambda>v.
          if v then getLastValidLines_loop frames side (frame_num - 1) (count - 1) (valid_lines @ [line])
          else getLastValidLines_loop frames side (frame_num - 1) count valid_lines)))
      else Inr valid_lines)"
  by pat_completeness auto
termination
  by (relation "measure (\<lambda>(frames, side, frame_num, count, valid_lines). nat (frame_num + 1))") auto

declare getLastValidLines_loop.simps [simp del]

definition getLastValidLines :: "tracker \<Rightarrow> Side \<Rightarrow> int \<Rightarrow> error + Line list" where
  "getLastValidLines st side count =
     getLastValidLines_loop (FRAMES st) side (frame_number st) count []"


subsection \<open>find_lane_pixels\<close>

text \<open>
  The warped mask is a two-dimensional array of numbers, \<open>img_pixel img y x\<close> being
  the value in row \<open>y\<close> and column \<open>x\<close>. Producing it (undistortion, thresholding,
  region mask, perspective warp) is OpenCV's work and outside the model.
\<close>

record image =
  img_height :: nat
  img_width :: nat
  img_pixel :: "nat \<Rightarrow> nat \<Rightarrow> real"

text \<open>\<^verbatim>\<open>binary_warped.nonzero()\<close>: the \<open>(y, x)\<close> positions of the nonzero entries, row by row.\<close>

definition nonzero :: "image \<Rightarrow> (int \<times> int) list" where
  "nonzero img =
     concat (map (\<lambda>y. map (\<lambda>x. (int y, int x))
                          (filter (\<lambda>x. img_pixel img y x \<noteq> 0) [0..<img_width img]))
                 [0..<img_height img])"

text \<open>
  The pixels of the rectangle \<open>rows \<times> cols\<close>, in the order in which \<open>nonzero\<close>
  lists them; the pixel sets of the examples are such rectangles.
\<close>

definition block :: "nat list \<Rightarrow> nat list \<Rightarrow> (int \<times> int) list" where
  "block rows cols = concat (map (\<lambda>y. map (\<lambda>x. (int y, int x)) cols) rows)"

definition nwindows :: int where "nwindows = 9"
definition window_margin :: int where "window_margin = 75"
definition poly_margin :: real where "poly_margin = 50"
definition minpix :: int where "minpix = 75"

text \<open>\<^verbatim>\<open>np.sum(binary_warped[height//2:,:], axis=0)\<close>: the column sums of the bottom half.\<close>

definition histogram :: "image \<Rightarrow> real list" where
  "histogram img =
     map (\<lambda>x. sum_list (map (\<lambda>y. img_pixel img y x) [img_height img div 2..<img_height img]))
         [0..<img_width img]"

text \<open>\<^verbatim>\<open>np.argmax\<close>: the first position of the maximum; \<^verbatim>\<open>ValueError\<close> on an empty array.\<close>

definition np_argmax :: "real list \<Rightarrow> error + int" where
  "np_argmax xs = ebind (np_max xs) (\<lambda>m. Inr (int (length (takeWhile (\<lambda>v. v \<noteq> m) xs))))"

text \<open>The positions, in the nonzero arrays, of the pixels inside one window.\<close>

definition window_inds :: "int list \<Rightarrow> int list \<Rightarrow> int \<Rightarrow> int \<Rightarrow> int \<Rightarrow> int \<Rightarrow> nat list" where
  "window_inds nonzeroy nonzerox win_y_low win_y_high win_x_low win_x_high =
     filter (\<lambda>i. nonzeroy ! i \<ge> win_y_low \<and> nonzeroy ! i < win_y_high \<and>
                  nonzerox ! i \<ge> win_x_low \<and> nonzerox ! i < win_x_high)
            [0..<length nonzerox]"

text \<open>
  \<^verbatim>\<open>np.int(np.mean(nonzerox[good_inds]))\<close>: the mean of at least \<open>minpix\<close> column
  numbers, none negative, cut to an integer.
\<close>

definition mean_index :: "int list \<Rightarrow> nat list \<Rightarrow> int" where
  "mean_index nonzerox inds = sum_list (map (\<lambda>i. nonzerox ! i) inds) div int (length inds)"

record window_state =
  leftx_current :: int
  rightx_current :: int
  left_lane_inds :: "nat list"
  right_lane_inds :: "nat list"

definition window_step :: "int \<Rightarrow> int \<Rightarrow> int list \<Rightarrow> int list \<Rightarrow> int \<Rightarrow> window_state \<Rightarrow> window_state" where
  "window_step height window_height nonzeroy nonzerox window ws =
     (let win_y_low = height - (window + 1) * window_height;
          win_y_high = height - window * window_height;
          win_xleft_low = leftx_current ws - window_margin;
          win_xleft_high = leftx_current ws + window_margin;
          win_xright_low = rightx_current ws - window_margin;
          win_xright_high = rightx_current ws + window_margin;
          good_left_inds = window_inds nonzeroy nonzerox win_y_low win_y_high win_xleft_low win_xleft_high;
          good_right_inds = window_inds nonzeroy nonzerox win_y_low win_y_high win_xright_low win_xright_high
      in \<lparr> leftx_current =
              (if int (length good_left_inds) \<ge> minpix then mean_index nonzerox good_left_inds
               else leftx_current ws),
            rightx_current =
              (if int (length good_right_inds) \<ge> minpix then mean_index nonzerox good_right_inds
               else rightx_current ws),
            left_lane_inds = left_lane_inds ws @ good_left_inds,
            right_lane_inds = right_lane_inds ws @ good_right_inds \<rparr>)"

text \<open>The cold start: histogram peaks, then nine windows from the bottom of the image up.\<close>

definition sliding_window_search :: "image \<Rightarrow> int list \<Rightarrow> int list \<Rightarrow> error + (nat list \<times> nat list)" where
  "sliding_window_search binary_warped nonzeroy nonzerox =
     (let height = int (img_height binary_warped);
          hist = histogram binary_warped;
          midpoint = length hist div 2
      in ebind (np_argmax (take midpoint hist)) (\<lambda>leftx_base.
         ebind (np_argmax (drop midpoint hist)) (\<lambda>right_peak.
           let rightx_base = right_peak + int midpoint;
               window_height = height div nwindows;
               ws = fold (window_step height window_height nonzeroy nonzerox)
                         (map int [0..<nat nwindows])
                         \<lparr> leftx_current = leftx_base, rightx_current = rightx_base,
                           left_lane_inds = [], right_lane_inds = [] \<rparr>
           in Inr (left_lane_inds ws, right_lane_inds ws))))"

text \<open>
  The warm start: the pixels strictly within \<open>poly_margin\<close> of a polynomial. The
  source builds a boolean mask over the nonzero arrays; indexing by it keeps the
  positions where it is true, in order.
\<close>

definition poly_inds :: "coeffs \<Rightarrow> int list \<Rightarrow> int list \<Rightarrow> nat list" where
  "poly_inds poly nonzeroy nonzerox =
     filter (\<lambda>i. real_of_int (nonzerox ! i) > polyval poly (real_of_int (nonzeroy ! i)) - poly_margin \<and>
                  real_of_int (nonzerox ! i) < polyval poly (real_of_int (nonzeroy ! i)) + poly_margin)
            [0..<length nonzerox]"

definition poly_search :: "Line \<Rightarrow> Line \<Rightarrow> int list \<Rightarrow> int list \<Rightarrow> error + (nat list \<times> nat list)" where
  "poly_search left_ln right_ln nonzeroy nonzerox =
     ebind (read_attr (line_coefficients left_ln)) (\<lambda>left_poly.
     ebind (read_attr (line_coefficients right_ln)) (\<lambda>right_poly.
       Inr (poly_inds left_poly nonzeroy nonzerox, poly_inds right_poly nonzeroy nonzerox)))"

text \<open>\<^verbatim>\<open>line is None or not line.isValid()\<close>\<close>

definition unusable :: "Line option \<Rightarrow> error + bool" where
  "unusable line = (case line of None \<Rightarrow> Inr True | Some l \<Rightarrow> ebind (isValid l) (\<lambda>v. Inr (\<not> v)))"

text \<open>The condition of the \<^verbatim>\<open>if\<close> that picks the search; \<^verbatim>\<open>or\<close> stops at the first true operand.\<close>

definition use_sliding_windows :: "Line option \<Rightarrow> Line option \<Rightarrow> error + bool" where
  "use_sliding_windows left_ln right_ln =
     ebind (unusable left_ln) (\<lambda>lu. if lu then Inr True else unusable right_ln)"

definition search_pixels ::
  "image \<Rightarrow> Line option \<Rightarrow> Line option \<Rightarrow> int list \<Rightarrow> int list \<Rightarrow> error + (nat list \<times> nat list)" where
  "search_pixels binary_warped left_ln right_ln nonzeroy nonzerox =
     ebind (use_sliding_windows left_ln right_ln) (\<lambda>cold.
       if cold then sliding_window_search binary_warped nonzeroy nonzerox
       else ebind (read_attr left_ln) (\<lambda>l.
            ebind (read_attr right_ln) (\<lambda>r.
              poly_search l r nonzeroy nonzerox)))"

text \<open>
  The validation at the end of \<^verbatim>\<open>find_lane_pixels\<close>. \<^verbatim>\<open>and\<close> stops at the first
  false operand, so the distance between the sampled curves is computed only
  for two valid lines, whose samples have the same length.
\<close>

definition lines_too_close :: "Line \<Rightarrow> Line \<Rightarrow> error + bool" where
  "lines_too_close new_left_line new_right_line =
     ebind (isValid new_left_line) (\<lambda>lv.
       if \<not> lv then Inr False
       else ebind (isValid new_right_line) (\<lambda>rv.
         if \<not> rv then Inr False
         else ebind (np_min (map2 (\<lambda>r l. \<bar>r - l\<bar>) (fitx new_right_line) (fitx new_left_line))) (\<lambda>m.
           Inr (m < 300))))"

definition validate_lines :: "Line \<Rightarrow> Line \<Rightarrow> error + (Line \<times> Line)" where
  "validate_lines new_left_line new_right_line =
     ebind (lines_too_close new_left_line new_right_line) (\<lambda>close.
       if close then Inr (new_left_line\<lparr>detected := False\<rparr>, new_right_line\<lparr>detected := False\<rparr>)
       else Inr (new_left_line, new_right_line))"

definition find_lane_pixels ::
  "polyfit \<Rightarrow> image \<Rightarrow> Line option \<Rightarrow> Line option \<Rightarrow> error + (Line \<times> Line)" where
  "find_lane_pixels pf binary_warped left_ln right_ln =
     (let height = img_height binary_warped;
          nz = nonzero binary_warped;
          nonzeroy = map fst nz;
          nonzerox = map snd nz
      in ebind (search_pixels binary_warped left_ln right_ln nonzeroy nonzerox) (\<lambda>inds.
           let leftx = map (\<lambda>i. nonzerox ! i) (fst inds);
               lefty = map (\<lambda>i. nonzeroy ! i) (fst inds);
               rightx = map (\<lambda>i. nonzerox ! i) (snd inds);
               righty = map (\<lambda>i. nonzeroy ! i) (snd inds)
           in ebind (Line_init pf leftx lefty height True) (\<lambda>new_left_line.
              ebind (Line_init pf rightx righty height True) (\<lambda>new_right_line.
                validate_lines new_left_line new_right_line))))"


subsection \<open>process_frame\<close>

text \<open>
  \<^verbatim>\<open>np.mean(rows, axis = 0)\<close> over a list of coefficient triples: the mean of each
  column. Over an empty list numpy warns and returns the scalar \<open>nan\<close>.
\<close>

datatype mean_coeffs = NaN | Mean coeffs

definition np_mean_axis0 :: "coeffs list \<Rightarrow> mean_coeffs" where
  "np_mean_axis0 rows =
     (if rows = [] then NaN
      else let n = real (length rows)
           in Mean (sum_list (map fst rows) / n,
                    sum_list (map (\<lambda>r. fst (snd r)) rows) / n,
                    sum_list (map (\<lambda>r. snd (snd r)) rows) / n))"

text \<open>The comprehensions that read one attribute of every line of a list.\<close>

fun coefficients_of :: "Line list \<Rightarrow> error + coeffs list" where
  "coefficients_of [] = Inr []"
| "coefficients_of (l # ls) =
     ebind (read_attr (line_coefficients l)) (\<lambda>c.
     ebind (coefficients_of ls) (\<lambda>cs. Inr (c # cs)))"

fun curvatures_of :: "Line list \<Rightarrow> error + np_float list" where
  "curvatures_of [] = Inr []"
| "curvatures_of (l # ls) =
     ebind (read_attr (curvature l)) (\<lambda>c.
     ebind (curvatures_of ls) (\<lambda>cs. Inr (c # cs)))"

definition average_coefficients :: "Line list \<Rightarrow> error + mean_coeffs" where
  "average_coefficients valid_lines =
     ebind (coefficients_of valid_lines) (\<lambda>rows. Inr (np_mean_axis0 rows))"

text \<open>
  The published estimate of one side: the average over the lines that
  \<^verbatim>\<open>getLastValidLines(side, AVERAGE_OVER_X_FRAMES)\<close> returns.
\<close>

definition smoothed_estimate :: "tracker \<Rightarrow> Side \<Rightarrow> error + mean_coeffs" where
  "smoothed_estimate st side =
     ebind (getLastValidLines st side AVERAGE_OVER_X_FRAMES) average_coefficients"

text \<open>
  The line that stands for the current position of one side: the frame's own
  line, or \<^verbatim>\<open>getLastValidLines(side, 1)[0]\<close> when that one is not valid.
\<close>

definition current_line :: "tracker \<Rightarrow> Side \<Rightarrow> Line \<Rightarrow> error + Line" where
  "current_line st side line =
     ebind (isValid line) (\<lambda>v.
       if \<not> v then ebind (getLastValidLines st side 1) (\<lambda>ls. py_index ls 0)
       else Inr line)"

text \<open>
  \<^verbatim>\<open>fillLane\<close> draws with OpenCV; what the model keeps of it is that it indexes
  both averages, which fails on the scalar \<open>nan\<close>.
\<close>

definition fillLane_reads :: "mean_coeffs \<Rightarrow> mean_coeffs \<Rightarrow> error + unit" where
  "fillLane_reads al ar =
     (case al of NaN \<Rightarrow> Inl IndexError
      | Mean a \<Rightarrow> (case ar of NaN \<Rightarrow> Inl IndexError | Mean b \<Rightarrow> Inr ()))"

text \<open>
  \<^verbatim>\<open>int(np.mean(avg_curve))\<close>: \<^verbatim>\<open>int\<close> cuts towards zero, raises \<^verbatim>\<open>ValueError\<close>
  on \<open>nan\<close> (the mean of no value) and \<^verbatim>\<open>OverflowError\<close> on infinity.
\<close>

definition py_int :: "real \<Rightarrow> int" where
  "py_int v = (if v \<ge> 0 then \<lfloor>v\<rfloor> else \<lceil>v\<rceil>)"

fun finite_values :: "np_float list \<Rightarrow> real list option" where
  "finite_values [] = Some []"
| "finite_values (PosInf # cs) = None"
| "finite_values (Finite v # cs) = map_option (\<lambda>vs. v # vs) (finite_values cs)"

definition mean_curvature :: "np_float list \<Rightarrow> error + int" where
  "mean_curvature avg_curve =
     (if avg_curve = [] then Inl ValueError
      else case finite_values avg_curve of
             None \<Rightarrow> Inl OverflowError
           | Some vs \<Rightarrow> Inr (py_int (sum_list vs / real (length vs))))"

record frame_output =
  avg_left :: mean_coeffs
  avg_right :: mean_coeffs
  average_line_curvature :: int
  offset :: real

text \<open>What \<^verbatim>\<open>process_frame\<close> computes once the frame is in \<^verbatim>\<open>FRAMES\<close>.\<close>

definition measurements :: "tracker \<Rightarrow> Line \<Rightarrow> Line \<Rightarrow> int \<Rightarrow> error + frame_output" where
  "measurements st new_left new_right w =
     ebind (current_line st LEFT new_left) (\<lambda>current_left_line.
     ebind (current_line st RIGHT new_right) (\<lambda>current_right_line.
     ebind (getLastValidLines st LEFT AVERAGE_OVER_X_FRAMES) (\<lambda>valid_left_lines.
     ebind (getLastValidLines st RIGHT AVERAGE_OVER_X_FRAMES) (\<lambda>valid_right_lines.
     ebind (average_coefficients valid_left_lines) (\<lambda>al.
     ebind (average_coefficients valid_right_lines) (\<lambda>ar.
     ebind (fillLane_reads al ar) (\<lambda>u.
     ebind (curvatures_of (valid_left_lines @ valid_right_lines)) (\<lambda>avg_curve.
     ebind (mean_curvature avg_curve) (\<lambda>curv.
     ebind (measure_offset current_left_line current_right_line w) (\<lambda>off.
       Inr \<lparr> avg_left = al, avg_right = ar,
             average_line_curvature = curv, offset = off \<rparr>))))))))))"

text \<open>
  \<^verbatim>\<open>process_frame\<close> on the warped mask of a frame. The globals keep what was
  assigned before an exception, so the new state is returned beside the result:
  \<^verbatim>\<open>frame_number\<close> is incremented first, and the frame is appended as soon as
  \<^verbatim>\<open>find_lane_pixels\<close> has returned.
\<close>

definition previous_lines :: "tracker \<Rightarrow> error + (Line option \<times> Line option)" where
  "previous_lines st =
     (if frame_number st > 0 then
        ebind (py_index (FRAMES st) (frame_number st - 1)) (\<lambda>prev.
          Inr (left_line prev, right_line prev))
      else Inr (None, None))"

definition process_frame :: "polyfit \<Rightarrow> tracker \<Rightarrow> image \<Rightarrow> tracker \<times> (error + frame_output)" where
  "process_frame pf st warped =
     (let st1 = st\<lparr>frame_number := frame_number st + 1\<rparr>;
          frame = Frame_init (frame_number st1)
      in case ebind (previous_lines st1) (\<lambda>prev.
                find_lane_pixels pf warped (fst prev) (snd prev)) of
           Inl e \<Rightarrow> (st1, Inl e)
         | Inr new_lines \<Rightarrow>
             (let st2 = st1\<lparr>FRAMES := FRAMES st1 @
                          [frame\<lparr>left_line := Some (fst new_lines),
                                 right_line := Some (snd new_lines)\<rparr>]\<rparr>
              in (st2, measurements st2 (fst new_lines) (snd new_lines)
                                    (int (img_width warped)))))"


subsection \<open>Well-formed lines\<close>

text \<open>
  A line is \<open>fitted\<close> when the attributes of the fitting branch of \<^verbatim>\<open>__init__\<close>
  are present. Every line that \<^verbatim>\<open>__init__\<close> returns with \<^verbatim>\<open>detected\<close> set is
  fitted, and nothing in the program sets \<^verbatim>\<open>detected\<close> afterwards.
\<close>

definition fitted :: "Line \<Rightarrow> bool" where
  "fitted l = (line_coefficients l \<noteq> None \<and> curvature l \<noteq> None \<and>
               upper_slope l \<noteq> None \<and> mid_slope l \<noteq> None \<and> lower_slope l \<noteq> None)"

definition line_ok :: "Line \<Rightarrow> bool" where
  "line_ok l = (if detected l then fitted l else True)"


text \<open>A line that \<^verbatim>\<open>isValid\<close> accepts.\<close>

definition valid :: "Line \<Rightarrow> bool" where
  "valid l = (isValid l = Inr True)"

subsection \<open>Well-formed tracker states\<close>

text \<open>
  The states that \<^verbatim>\<open>process_frame\<close> leaves behind: every frame in \<^verbatim>\<open>FRAMES\<close>
  carries its two lines, both as \<^verbatim>\<open>__init__\<close> builds them, and \<^verbatim>\<open>frame_number\<close> is
  the index of the last frame. \<open>lines_of\<close> lists the lines of one side in the
  order of the frames given; \<open>valid_history\<close> is the valid ones among them,
  the most recent first.
\<close>

definition frame_ok :: "Frame \<Rightarrow> bool" where
  "frame_ok fr =
     (case left_line fr of None \<Rightarrow> False
      | Some l \<Rightarrow> (case right_line fr of None \<Rightarrow> False | Some r \<Rightarrow> line_ok l \<and> line_ok r))"

definition wf_tracker :: "tracker \<Rightarrow> bool" where
  "wf_tracker st = (frame_number st = int (length (FRAMES st)) - 1 \<and> list_all frame_ok (FRAMES st))"

definition lines_of :: "Side \<Rightarrow> Frame list \<Rightarrow> Line list" where
  "lines_of side frs = concat (map (\<lambda>fr. case side_line side fr of None \<Rightarrow> [] | Some l \<Rightarrow> [l]) frs)"

definition valid_history :: "tracker \<Rightarrow> Side \<Rightarrow> Line list" where
  "valid_history st side = filter valid (lines_of side (rev (FRAMES st)))"

text \<open>What \<^verbatim>\<open>process_frame\<close> can pass as a previous line: nothing, or a line of a frame.\<close>

definition prev_ok :: "Line option \<Rightarrow> bool" where
  "prev_ok p = (case p of None \<Rightarrow> True | Some l \<Rightarrow> line_ok l)"

subsection \<open>The distance between two sampled curves, as the specification words it\<close>

text \<open>
  The least horizontal distance between the samples of two curves over the rows
  \<open>0, ..., h - 1\<close>. The program computes it with \<^verbatim>\<open>np.min(np.absolute(...))\<close> in
  \<open>lines_too_close\<close>; the two are compared below.
\<close>

definition min_sampled_gap :: "Line \<Rightarrow> Line \<Rightarrow> nat \<Rightarrow> real" where
  "min_sampled_gap l r h = Min ((\<lambda>y. \<bar>fitx r ! y - fitx l ! y\<bar>) ` {0..<h})"


section \<open>Basic facts\<close>

lemma ebind_Inl [simp]: "ebind (Inl e) f = Inl e"
  by (simp add: ebind_def)

lemma ebind_Inr [simp]: "ebind (Inr v) f = f v"
  by (simp add: ebind_def)

lemma ebind_eq_Inr:
  "ebind m f = Inr y \<longleftrightarrow> (\<exists>v. m = Inr v \<and> f v = Inr y)"
  by (cases m) simp_all

lemma read_attr_simps [simp]:
  "read_attr None = Inl AttributeError" "read_attr (Some v) = Inr v"
  by (simp_all add: read_attr_def)

lemma np_max_Nil [simp]: "np_max [] = Inl ValueError"
  by (simp add: np_max_def)

lemma np_max_nonempty: "xs \<noteq> [] \<Longrightarrow> \<exists>m. np_max xs = Inr m"
  by (cases xs) (simp_all add: np_max_def)

lemma Line_init_empty:
  "x_pixels = [] \<or> y_pixels = [] \<Longrightarrow>
   Line_init pf x_pixels y_pixels h d =
     Inr \<lparr> fitx = [], fity = [], lane_pixels_x = x_pixels, lane_pixels_y = y_pixels,
           detected = False, line_coefficients = None, curvature = None,
           upper_slope = None, mid_slope = None, lower_slope = None \<rparr>"
  by (auto simp: Line_init_def)

lemma py_index_in_range:
  "0 \<le> i \<Longrightarrow> i < int (length xs) \<Longrightarrow> py_index xs i = Inr (xs ! nat i)"
  by (simp add: py_index_def)

lemma np_max_Max: "xs \<noteq> [] \<Longrightarrow> np_max xs = Inr (Max (set xs))"
  by (cases xs) (simp_all add: np_max_def Max.set_eq_fold [symmetric])

lemma np_min_Min: "xs \<noteq> [] \<Longrightarrow> np_min xs = Inr (Min (set xs))"
  by (cases xs) (simp_all add: np_min_def Min.set_eq_fold [symmetric])

lemma length_linspace0 [simp]: "length (linspace0 h) = h"
  by (simp add: linspace0_def)

lemma nth_linspace0 [simp]: "i < h \<Longrightarrow> linspace0 h ! i = real i"
  by (simp add: linspace0_def)

lemma linspace0_eq_Nil [simp]: "linspace0 h = [] \<longleftrightarrow> h = 0"
  by (simp add: linspace0_def)

lemma max_world_y:
  assumes "0 < h"
  shows "np_max (map (\<lambda>y. y * METERS_PER_PIXEL_Y) (linspace0 h)) = Inr (real (h - 1) * METERS_PER_PIXEL_Y)"
proof -
  let ?S = "set (map (\<lambda>y. y * METERS_PER_PIXEL_Y) (linspace0 h))"
  have pos: "0 \<le> METERS_PER_PIXEL_Y" by (simp add: METERS_PER_PIXEL_Y_def)
  have "Max ?S = real (h - 1) * METERS_PER_PIXEL_Y"
  proof (rule Max_eqI)
    show "finite ?S" by simp
    show "real (h - 1) * METERS_PER_PIXEL_Y \<in> ?S"
      using assms by (auto simp: linspace0_def intro!: image_eqI [where x = "h - 1"])
    fix v assume "v \<in> ?S"
    then obtain k where "k < h" "v = real k * METERS_PER_PIXEL_Y"
      by (auto simp: linspace0_def)
    then show "v \<le> real (h - 1) * METERS_PER_PIXEL_Y"
      using pos by (simp add: mult_right_mono)
  qed
  then show ?thesis using assms by (simp add: np_max_Max)
qed

lemma py_index_linspace0:
  "0 \<le> i \<Longrightarrow> i < int h \<Longrightarrow> py_index (linspace0 h) i = Inr (real (nat i))"
  by (simp add: py_index_def)

lemma world_y_not_all_zero:
  assumes "2 \<le> h"
  shows "\<not> list_all (\<lambda>v. v = 0) (map (\<lambda>y. y * METERS_PER_PIXEL_Y) (linspace0 h))"
proof -
  have "1 < h" using assms by simp
  then have "real 1 * METERS_PER_PIXEL_Y \<in> set (map (\<lambda>y. y * METERS_PER_PIXEL_Y) (linspace0 h))"
    unfolding linspace0_def set_map by (intro imageI) simp
  moreover have "real 1 * METERS_PER_PIXEL_Y \<noteq> 0" by (simp add: METERS_PER_PIXEL_Y_def)
  ultimately show ?thesis unfolding list_all_iff by blast
qed

lemma world_y_all_zero:
  assumes "h \<le> 1"
  shows "list_all (\<lambda>v. v = 0) (map (\<lambda>y. y * METERS_PER_PIXEL_Y) (linspace0 h))"
proof -
  have "h = 0 \<or> h = 1" using assms by linarith
  then show ?thesis by (auto simp: linspace0_def)
qed

lemma pixels_all_zero:
  "list_all (\<lambda>v. v = 0) (map real_of_int ys) \<longleftrightarrow> (\<forall>y \<in> set ys. y = 0)"
  by (simp add: list_all_iff)

lemma Line_init_fit:
  assumes "x_pixels \<noteq> []" "y_pixels \<noteq> []" "length x_pixels = length y_pixels"
    and "\<exists>y \<in> set y_pixels. y \<noteq> 0" "2 \<le> h"
  shows "Line_init pf x_pixels y_pixels h d =
     (let cs = pf (map real_of_int y_pixels) (map real_of_int x_pixels);
          fy = linspace0 h; fx = map (polyval cs) fy
      in Inr \<lparr> fitx = fx, fity = fy, lane_pixels_x = x_pixels, lane_pixels_y = y_pixels,
           detected = d, line_coefficients = Some cs,
           curvature = Some (curvature_radius
              (pf (map (\<lambda>y. y * METERS_PER_PIXEL_Y) fy) (map (\<lambda>x. x * METERS_PER_PIXEL_X) fx))
              (real (h - 1) * METERS_PER_PIXEL_Y)),
           upper_slope = Some (slope_at cs 0), mid_slope = Some (slope_at cs (real (h div 2))),
           lower_slope = Some (slope_at cs (real (h - 1))) \<rparr>)"
proof -
  have h: "0 < h" using assms(5) by simp
  have i0: "py_index (linspace0 h) 0 = Inr 0"
    using h py_index_linspace0 [of 0 h] by simp
  have i1: "py_index (linspace0 h) (int h div 2) = Inr (real (h div 2))"
    using h py_index_linspace0 [of "int h div 2" h] by (simp add: nat_div_distrib)
  have i2: "py_index (linspace0 h) (int h - 1) = Inr (real (h - 1))"
    using h py_index_linspace0 [of "int h - 1" h] by (simp add: nat_diff_distrib)
  have p1: "\<not> list_all (\<lambda>v. v = 0) (map real_of_int y_pixels)"
    using assms(4) by (simp add: pixels_all_zero)
  show ?thesis
    using assms(1,2,3) h p1 world_y_not_all_zero [OF assms(5)]
    by (simp add: Line_init_def np_polyfit_def Let_def max_world_y i0 i1 i2)
qed

text \<open>Where the constructor raises on a non-empty pixel set of equal-length sequences.\<close>

lemma Line_init_row0:
  assumes "x_pixels \<noteq> []" "y_pixels \<noteq> []" "length x_pixels = length y_pixels"
    and "\<forall>y \<in> set y_pixels. y = 0"
  shows "Line_init pf x_pixels y_pixels h d = Inl LinAlgError"
  using assms by (simp add: Line_init_def np_polyfit_def pixels_all_zero)

lemma Line_init_height1:
  assumes "x_pixels \<noteq> []" "y_pixels \<noteq> []" "length x_pixels = length y_pixels"
  shows "Line_init pf x_pixels y_pixels 1 d = Inl LinAlgError"
proof (cases "\<forall>y \<in> set y_pixels. y = 0")
  case True
  then show ?thesis using Line_init_row0 [OF assms] by simp
next
  case False
  then have p1: "\<not> list_all (\<lambda>v. v = 0) (map real_of_int y_pixels)"
    by (simp add: pixels_all_zero)
  have m: "np_max (map (\<lambda>y. y * METERS_PER_PIXEL_Y) (linspace0 1)) = Inr (real (1 - 1) * METERS_PER_PIXEL_Y)"
    by (rule max_world_y) simp
  show ?thesis
    using assms p1 m world_y_all_zero [of 1]
    by (simp add: Line_init_def np_polyfit_def Let_def)
qed


lemma isValid_undetected: "\<not> detected l \<Longrightarrow> isValid l = Inr False"
  by (simp add: isValid_def)

lemma isValid_fitted:
  assumes "line_coefficients l = Some cs" "upper_slope l = Some up"
    "mid_slope l = Some mi" "lower_slope l = Some lo"
  shows "isValid l =
     Inr (detected l \<and> int (length (lane_pixels_x l)) > 3000 \<and> \<bar>up - lo\<bar> < 12 / 10 \<and>
          up < 12 / 10 \<and> mi < 12 / 10 \<and> lo < 12 / 10)"
  using assms by (simp add: isValid_def MIN_PIXELS_FOR_VALID_LINE_def SLOPE_TOLERANCE_def)

lemma isValid_total: "line_ok l \<Longrightarrow> \<exists>b. isValid l = Inr b"
proof (cases "detected l")
  case False
  then show ?thesis by (auto simp: isValid_undetected)
next
  case True
  assume "line_ok l"
  with True obtain cs up mi lo where "line_coefficients l = Some cs" "upper_slope l = Some up"
    "mid_slope l = Some mi" "lower_slope l = Some lo"
    by (auto simp: line_ok_def fitted_def)
  then show ?thesis by (simp add: isValid_fitted)
qed

lemma Line_init_height0:
  assumes "x_pixels \<noteq> []" "y_pixels \<noteq> []" "length x_pixels = length y_pixels"
  shows "\<exists>e. Line_init pf x_pixels y_pixels 0 d = Inl e"
proof (cases "\<forall>y \<in> set y_pixels. y = 0")
  case True
  then show ?thesis using Line_init_row0 [OF assms] by simp
next
  case False
  then have p1: "\<not> list_all (\<lambda>v. v = 0) (map real_of_int y_pixels)"
    by (simp add: pixels_all_zero)
  show ?thesis
    using assms p1 by (simp add: Line_init_def np_polyfit_def Let_def linspace0_def)
qed

lemma Line_init_cases:
  assumes "Line_init pf xs ys h d = Inr l"
  shows "(xs = [] \<or> ys = []) \<and> \<not> detected l \<and> fitx l = [] \<and> fity l = [] \<or>
         xs \<noteq> [] \<and> ys \<noteq> [] \<and> length xs = length ys \<and> (\<exists>y \<in> set ys. y \<noteq> 0) \<and> 2 \<le> h \<and>
         fitted l \<and> fity l = linspace0 h \<and> length (fitx l) = h"
proof (cases "xs = [] \<or> ys = []")
  case True
  then show ?thesis using assms by (auto simp: Line_init_empty)
next
  case False
  have len: "length xs = length ys"
    using assms False by (auto simp: Line_init_def np_polyfit_def split: if_splits)
  have nz: "\<exists>y \<in> set ys. y \<noteq> 0"
    using assms False len Line_init_row0 [of xs ys pf h d] by auto
  have h0: "h \<noteq> 0"
  proof
    assume "h = 0"
    then show False using assms False len Line_init_height0 [of xs ys pf d] by auto
  qed
  have h1: "h \<noteq> 1"
  proof
    assume "h = 1"
    then show False using assms False len Line_init_height1 [of xs ys pf d] by auto
  qed
  have h: "2 \<le> h" using h0 h1 by linarith
  show ?thesis
    using assms False len nz h Line_init_fit [of xs ys h pf d]
    by (auto simp: Let_def fitted_def)
qed

lemma Line_init_line_ok: "Line_init pf xs ys h d = Inr l \<Longrightarrow> line_ok l"
  using Line_init_cases [of pf xs ys h d l] by (auto simp: line_ok_def)


section \<open>The least-squares fit\<close>


lemma cramer_unique:
  fixes s0 s1 s2 s3 s4 a b c :: real
  defines "D \<equiv> det3 s4 s3 s2 s3 s2 s1 s2 s1 s0"
  defines "t2 \<equiv> s4 * a + s3 * b + s2 * c"
  defines "t1 \<equiv> s3 * a + s2 * b + s1 * c"
  defines "t0 \<equiv> s2 * a + s1 * b + s0 * c"
  assumes D: "D \<noteq> 0"
  shows "det3 t2 s3 s2 t1 s2 s1 t0 s1 s0 / D = a"
    and "det3 s4 t2 s2 s3 t1 s1 s2 t0 s0 / D = b"
    and "det3 s4 s3 t2 s3 s2 t1 s2 s1 t0 / D = c"
proof -
  have "det3 t2 s3 s2 t1 s2 s1 t0 s1 s0 = a * D"
    unfolding D_def t2_def t1_def t0_def det3_def by (simp add: algebra_simps)
  then show "det3 t2 s3 s2 t1 s2 s1 t0 s1 s0 / D = a" using D by simp
  have "det3 s4 t2 s2 s3 t1 s1 s2 t0 s0 = b * D"
    unfolding D_def t2_def t1_def t0_def det3_def by (simp add: algebra_simps)
  then show "det3 s4 t2 s2 s3 t1 s1 s2 t0 s0 / D = b" using D by simp
  have "det3 s4 s3 t2 s3 s2 t1 s2 s1 t0 = c * D"
    unfolding D_def t2_def t1_def t0_def det3_def by (simp add: algebra_simps)
  then show "det3 s4 s3 t2 s3 s2 t1 s2 s1 t0 / D = c" using D by simp
qed


lemma lstsq2_unique:
  assumes "regular ys xs" "normal_equations p ys xs"
  shows "lstsq2 ys xs = p"
proof -
  obtain a b c where p: "p = (a, b, c)" by (cases p)
  show ?thesis
    using assms cramer_unique [of "moment 4 ys xs" "moment 3 ys xs" "moment 2 ys xs" "moment 1 ys xs"
      "moment 0 ys xs" a b c]
    by (simp add: regular_def normal_equations_def lstsq2_def Let_def p)
qed



lemma sum_list_block:
  "sum_list (map f (block rows cols)) =
     sum_list (map (\<lambda>y. sum_list (map (\<lambda>x. f (int y, int x)) cols)) rows)"
  by (induction rows) (simp_all add: block_def comp_def)

lemma map2_same: "map2 f (map g ps) (map h ps) = map (\<lambda>p. f (g p) (h p)) ps"
  by (induction ps) simp_all

lemma moment_block:
  "moment k (map real_of_int (map fst (block rows cols))) (map real_of_int (map snd (block rows cols))) =
     real (length cols) * sum_list (map (\<lambda>y. real y ^ k) rows)"
proof -
  have "moment k (map real_of_int (map fst (block rows cols))) (map real_of_int (map snd (block rows cols)))
        = sum_list (map (\<lambda>p. real_of_int (fst p) ^ k) (block rows cols))"
    by (simp add: moment_def map2_same [of _ "\<lambda>p. real_of_int (fst p)" _ "\<lambda>p. real_of_int (snd p)"] comp_def)
  also have "\<dots> = sum_list (map (\<lambda>y. real (length cols) * real y ^ k) rows)"
    by (simp add: sum_list_block sum_list_triv)
  finally show ?thesis by (simp add: sum_list_const_mult)
qed

lemma cross_moment_block:
  "cross_moment k (map real_of_int (map fst (block rows cols))) (map real_of_int (map snd (block rows cols))) =
     sum_list (map real cols) * sum_list (map (\<lambda>y. real y ^ k) rows)"
proof -
  have "cross_moment k (map real_of_int (map fst (block rows cols))) (map real_of_int (map snd (block rows cols)))
        = sum_list (map (\<lambda>p. real_of_int (snd p) * real_of_int (fst p) ^ k) (block rows cols))"
    by (simp add: cross_moment_def map2_same [of _ "\<lambda>p. real_of_int (fst p)" _ "\<lambda>p. real_of_int (snd p)"] comp_def)
  also have "\<dots> = sum_list (map (\<lambda>y. sum_list (map real cols) * real y ^ k) rows)"
    by (simp add: sum_list_block sum_list_mult_const [symmetric] comp_def)
  finally show ?thesis by (simp add: sum_list_const_mult)
qed



lemma length_block [simp]: "length (block rows cols) = length rows * length cols"
  by (induction rows) (simp_all add: block_def)

lemma block_eq_Nil [simp]: "block rows cols = [] \<longleftrightarrow> rows = [] \<or> cols = []"
  by (metis length_block length_0_conv mult_is_0)

lemma rows_10_50_regular:
  "det3 (sum_list (map (\<lambda>y. real y ^ 4) [10..<50])) (sum_list (map (\<lambda>y. real y ^ 3) [10..<50]))
        (sum_list (map (\<lambda>y. real y ^ 2) [10..<50])) (sum_list (map (\<lambda>y. real y ^ 3) [10..<50]))
        (sum_list (map (\<lambda>y. real y ^ 2) [10..<50])) (sum_list (map (\<lambda>y. real y ^ 1) [10..<50]))
        (sum_list (map (\<lambda>y. real y ^ 2) [10..<50])) (sum_list (map (\<lambda>y. real y ^ 1) [10..<50]))
        (sum_list (map (\<lambda>y. real y ^ 0) [10..<50])) \<noteq> 0"
  by (simp add: det3_def upt_rec)

lemma det3_scale:
  "det3 (n * a) (n * b) (n * c) (n * d) (n * e) (n * f) (n * g) (n * h) (n * i) =
     n * n * n * det3 a b c d e f g h i"
  by (simp add: det3_def algebra_simps)

lemma lstsq2_block:
  assumes "cols \<noteq> []"
  shows "lstsq2 (map real_of_int (map fst (block [10..<50] cols)))
                (map real_of_int (map snd (block [10..<50] cols))) =
           (0, 0, sum_list (map real cols) / real (length cols))"
proof (rule lstsq2_unique)
  have n: "real (length cols) \<noteq> 0" using assms by simp
  show "regular (map real_of_int (map fst (block [10..<50] cols)))
                (map real_of_int (map snd (block [10..<50] cols)))"
    unfolding regular_def moment_block det3_scale using n rows_10_50_regular by simp
  show "normal_equations (0, 0, sum_list (map real cols) / real (length cols))
          (map real_of_int (map fst (block [10..<50] cols)))
          (map real_of_int (map snd (block [10..<50] cols)))"
    unfolding normal_equations_def moment_block cross_moment_block using n by simp
qed





section \<open>The Line class: construction and validity\<close>




text \<open>
  C10. On a line constructed from an empty pixel sequence, where no
  coefficient, curvature or slope attribute was ever set, \<^verbatim>\<open>isValid\<close> returns
  \<^verbatim>\<open>False\<close>: it stops at the \<^verbatim>\<open>detected\<close> flag and reads none of the absent
  attributes, so it does not raise.
\<close>

theorem isValid_of_empty_line:
  assumes "x_pixels = [] \<or> y_pixels = []"
  shows "\<exists>l. Line_init pf x_pixels y_pixels h d = Inr l \<and>
             line_coefficients l = None \<and> curvature l = None \<and> upper_slope l = None \<and>
             mid_slope l = None \<and> lower_slope l = None \<and> \<not> detected l \<and>
             isValid l = Inr False"
  using assms by (auto simp: Line_init_empty isValid_undetected)

theorem isValid_of_empty_line_witness:
  "\<exists>l. Line_init lstsq2 [] [] 720 True = Inr l \<and>
       line_coefficients l = None \<and> curvature l = None \<and> upper_slope l = None \<and>
       mid_slope l = None \<and> lower_slope l = None \<and> \<not> detected l \<and>
       isValid l = Inr False"
  using isValid_of_empty_line [of "[]" "[]" lstsq2 720 True]
  by simp

text \<open>
  C1. \<^verbatim>\<open>isValid\<close> compares each slope itself, not its absolute value, with the
  tolerance: a detected line of 3001 pixels whose slope is \<open>-5\<close> at the top, in
  the middle and at the bottom is accepted as valid, although \<open>|-5|\<close> is not
  below \<open>1.2\<close>.
\<close>

theorem isValid_accepts_steep_negative_slope:
  "isValid \<lparr> fitx = [1100, 1095], fity = [0, 1],
             lane_pixels_x = replicate 3001 1100, lane_pixels_y = replicate 3001 0,
             detected = True, line_coefficients = Some (0, - 5, 1100),
             curvature = Some PosInf,
             upper_slope = Some (- 5), mid_slope = Some (- 5), lower_slope = Some (- 5) \<rparr>
   = Inr True"
  by (simp add: isValid_def MIN_PIXELS_FOR_VALID_LINE_def SLOPE_TOLERANCE_def)




section \<open>Curvature\<close>

lemma curvature_radius_zero: "curvature_radius (0, b, c) maxy = PosInf"
  by (simp add: curvature_radius_def np_true_divide_def)




section \<open>Offset from the lane centre\<close>

lemma np_max_linspace0:
  assumes "0 < h"
  shows "np_max (linspace0 h) = Inr (real (h - 1))"
proof -
  have "Max (set (linspace0 h)) = real (h - 1)"
  proof (rule Max_eqI)
    show "finite (set (linspace0 h))" by simp
    show "real (h - 1) \<in> set (linspace0 h)"
      using assms by (auto simp: linspace0_def intro!: image_eqI [where x = "h - 1"])
    fix v assume "v \<in> set (linspace0 h)"
    then show "v \<le> real (h - 1)" by (auto simp: linspace0_def)
  qed
  then show ?thesis using assms by (simp add: np_max_Max)
qed

lemma getLowestLinePoint_fit:
  assumes "Line_init pf xs ys h d = Inr l" "xs \<noteq> []" "ys \<noteq> []"
  shows "getLowestLinePoint l =
           Inr (polyval (pf (map real_of_int ys) (map real_of_int xs)) (real (h - 1)))"
proof -
  from assms Line_init_cases [OF assms(1)]
  have len: "length xs = length ys" and nz: "\<exists>y \<in> set ys. y \<noteq> 0" and h: "2 \<le> h" by auto
  have h0: "0 < h" using h by simp
  show ?thesis
    using assms(1) Line_init_fit [OF assms(2,3) len nz h, of pf d]
    by (auto simp: Let_def getLowestLinePoint_def np_max_linspace0 [OF h0])
qed

lemma py_round2_close: "\<bar>py_round2 v - v\<bar> \<le> 1 / 200"
proof -
  have "\<bar>of_int (round_half_even w) - w\<bar> \<le> 1 / 2" for w :: real
    unfolding round_half_even_def Let_def by (auto; linarith)
  from this [of "v * 100"] show ?thesis
    by (simp add: py_round2_def field_simps)
qed

text \<open>
  C8. For two fitted lines, \<^verbatim>\<open>measure_offset\<close> evaluates each polynomial at the
  largest sampled \<open>y\<close> (the bottom row), takes the mean of the two as the lane
  centre, subtracts it from \<open>width / 2\<close>, multiplies by \<open>3.7/700\<close> and rounds the
  product to two decimal places; the result is a multiple of \<open>0.01\<close> within
  \<open>0.005\<close> of the unrounded distance. With bottom values 300 and 700 and width
  1000 it is exactly 0.
\<close>

theorem measure_offset_rounded:
  assumes "Line_init pf lx ly h dl = Inr lline" "lx \<noteq> []" "ly \<noteq> []"
    and "Line_init pf rx ry h dr = Inr rline" "rx \<noteq> []" "ry \<noteq> []"
  shows "\<exists>leftmax rightmax off.
           getLowestLinePoint lline = Inr leftmax \<and>
           leftmax = polyval (pf (map real_of_int ly) (map real_of_int lx)) (real (h - 1)) \<and>
           getLowestLinePoint rline = Inr rightmax \<and>
           rightmax = polyval (pf (map real_of_int ry) (map real_of_int rx)) (real (h - 1)) \<and>
           measure_offset lline rline width = Inr off \<and>
           off = py_round2 ((real_of_int width / 2 - (rightmax + leftmax) / 2) * (37 / 10 / 700)) \<and>
           \<bar>off - (real_of_int width / 2 - (rightmax + leftmax) / 2) * (37 / 10 / 700)\<bar> \<le> 1 / 200 \<and>
           (\<exists>k::int. off = of_int k / 100) \<and>
           (leftmax = 300 \<and> rightmax = 700 \<and> width = 1000 \<longrightarrow> off = 0)"
proof -
  have "\<exists>k::int. py_round2 v = of_int k / 100" for v
    by (auto simp: py_round2_def)
  then show ?thesis
    using getLowestLinePoint_fit [OF assms(1,2,3)] getLowestLinePoint_fit [OF assms(4,5,6)]
      py_round2_close
    by (simp add: measure_offset_def Let_def METERS_PER_PIXEL_X_def)
       (simp add: py_round2_def round_half_even_def)
qed

theorem measure_offset_rounded_witness:
  "\<exists>l r. Line_init lstsq2 [300, 300, 300] [7, 8, 9] 720 True = Inr l \<and>
         Line_init lstsq2 [700, 700, 700] [7, 8, 9] 720 True = Inr r \<and>
         getLowestLinePoint l = Inr 300 \<and> getLowestLinePoint r = Inr 700 \<and>
         measure_offset l r 1000 = Inr 0"
proof -
  have vl: "lstsq2 (map real_of_int [7, 8, 9]) (map real_of_int [300, 300, 300]) = (0, 0, 300)"
    by (simp add: lstsq2_def moment_def cross_moment_def det3_def Let_def)
  have vr: "lstsq2 (map real_of_int [7, 8, 9]) (map real_of_int [700, 700, 700]) = (0, 0, 700)"
    by (simp add: lstsq2_def moment_def cross_moment_def det3_def Let_def)
  obtain l where l: "Line_init lstsq2 [300, 300, 300] [7, 8, 9] 720 True = Inr l"
    using Line_init_fit [of "[300, 300, 300]" "[7, 8, 9]" 720 lstsq2 True] by (simp add: Let_def)
  obtain r where r: "Line_init lstsq2 [700, 700, 700] [7, 8, 9] 720 True = Inr r"
    using Line_init_fit [of "[700, 700, 700]" "[7, 8, 9]" 720 lstsq2 True] by (simp add: Let_def)
  show ?thesis
    using l r vl vr measure_offset_rounded [OF l _ _ r, of 1000]
    by (auto simp: polyval_def)
qed

theorem measure_offset_unrounded_counterexample:
  "measure_offset
     \<lparr> fitx = [300], fity = [0], lane_pixels_x = [300], lane_pixels_y = [0],
       detected = True, line_coefficients = Some (0, 0, 300), curvature = Some PosInf,
       upper_slope = Some 0, mid_slope = Some 0, lower_slope = Some 0 \<rparr>
     \<lparr> fitx = [700], fity = [0], lane_pixels_x = [700], lane_pixels_y = [0],
       detected = True, line_coefficients = Some (0, 0, 700), curvature = Some PosInf,
       upper_slope = Some 0, mid_slope = Some 0, lower_slope = Some 0 \<rparr>
     1002 = Inr (1 / 100) \<and>
   (1 / 100 :: real) \<noteq> (real_of_int 1002 / 2 - (700 + 300) / 2) * METERS_PER_PIXEL_X"
  by (simp add: measure_offset_def getLowestLinePoint_def np_max_def polyval_def Let_def
        METERS_PER_PIXEL_X_def py_round2_def round_half_even_def)




section \<open>The history of frames\<close>

text \<open>
  The lines of the examples. A valid one is fitted to a rectangle of 40 rows,
  from row 10 on, by at least 76 columns: its least-squares fit is the vertical
  line through the mean column.
\<close>

lemma set_fst_block: "cols \<noteq> [] \<Longrightarrow> fst ` set (block rows cols) = int ` set rows"
  by (auto simp: block_def image_iff) (metis list.set_intros(1) neq_Nil_conv)

lemma constant_samples: "map (polyval (0, 0, m)) (linspace0 h) = replicate h m"
  by (simp add: polyval_def linspace0_def map_replicate_const comp_def)

lemma block_line:
  assumes "3000 < 40 * length cols"
  shows "\<exists>V. Line_init lstsq2 (map snd (block [10..<50] cols)) (map fst (block [10..<50] cols)) 720 d = Inr V \<and>
             detected V = d \<and> (d \<longrightarrow> valid V) \<and>
             line_coefficients V = Some (0, 0, sum_list (map real cols) / real (length cols)) \<and>
             fitx V = replicate 720 (sum_list (map real cols) / real (length cols))"
proof -
  let ?m = "sum_list (map real cols) / real (length cols)"
  let ?xs = "map snd (block [10..<50] cols)" and ?ys = "map fst (block [10..<50] cols)"
  have c: "cols \<noteq> []" using assms by auto
  have len: "length (block [10..<50] cols) = 40 * length cols" by simp
  have ne: "?xs \<noteq> []" "?ys \<noteq> []" using assms len by auto
  have "int 10 \<in> fst ` set (block [10..<50] cols)" unfolding set_fst_block [OF c] by simp
  then have nz: "\<exists>y \<in> set ?ys. y \<noteq> 0" by force
  have fx: "map (polyval (0, 0, ?m)) (linspace0 720) = replicate 720 ?m"
    by (rule constant_samples)
  obtain V where V: "Line_init lstsq2 ?xs ?ys 720 d = Inr V"
    "line_coefficients V = Some (0, 0, ?m)" "upper_slope V = Some 0" "mid_slope V = Some 0"
    "lower_slope V = Some 0" "detected V = d" "lane_pixels_x V = ?xs" "fitx V = replicate 720 ?m"
    using Line_init_fit [OF ne _ nz, of 720 lstsq2 d] unfolding lstsq2_block [OF c] Let_def fx
    by (simp add: slope_at_def)
  have "d \<longrightarrow> valid V"
    using isValid_fitted [OF V(2,3,4,5)] V(6,7) assms by (simp add: valid_def)
  with V show ?thesis by blast
qed

lemma cols_sums:
  "sum_list (map real [600..<680]) = 51160" "sum_list (map real [700..<780]) = 59160"
  by (simp_all add: upt_rec)

lemma example_lines:
  "\<exists>V E. Line_init lstsq2 (map snd (block [10..<50] [600..<680])) (map fst (block [10..<50] [600..<680])) 720 True = Inr V \<and>
         Line_init lstsq2 [] [] 720 True = Inr E \<and>
         valid V \<and> \<not> valid E \<and> line_coefficients V = Some (0, 0, 1279 / 2)"
proof -
  have "3000 < 40 * length [600..<680]" by simp
  from block_line [OF this, of True] obtain V where
    "Line_init lstsq2 (map snd (block [10..<50] [600..<680])) (map fst (block [10..<50] [600..<680])) 720 True = Inr V"
    "valid V" "line_coefficients V = Some (0, 0, 1279 / 2)"
    by (auto simp: cols_sums)
  moreover obtain E where E: "Line_init lstsq2 [] [] 720 True = Inr E" "\<not> detected E"
    by (simp add: Line_init_empty)
  moreover have "\<not> valid E" using E(2) by (simp add: valid_def isValid_undetected)
  ultimately show ?thesis by blast
qed

lemma frame_ok_side:
  "frame_ok fr \<Longrightarrow> \<exists>l. side_line side fr = Some l \<and> line_ok l"
  by (cases side) (auto simp: frame_ok_def side_line_def split: option.splits)

lemma lines_of_Cons:
  "side_line side fr = Some l \<Longrightarrow> lines_of side (fr # frs) = l # lines_of side frs"
  by (simp add: lines_of_def)

lemma lines_of_Nil [simp]: "lines_of side [] = []"
  by (simp add: lines_of_def)

lemma getLastValidLines_loop_take:
  assumes "list_all frame_ok frames" "n \<le> length frames"
  shows "getLastValidLines_loop frames side (int n - 1) count acc =
           Inr (acc @ take (nat count) (filter valid (lines_of side (rev (take n frames)))))"
  using assms(2)
proof (induction n arbitrary: count acc)
  case 0
  show ?case by (subst getLastValidLines_loop.simps) simp
next
  case (Suc n)
  then have n: "n < length frames" by simp
  show ?case
  proof (cases "count > 0")
    case False
    then show ?thesis by (subst getLastValidLines_loop.simps) simp
  next
    case True
    let ?fr = "frames ! n"
    have "frame_ok ?fr" using assms(1) n by (simp add: list_all_length)
    then obtain l where l: "side_line side ?fr = Some l" "line_ok l"
      using frame_ok_side by blast
    obtain b where b: "isValid l = Inr b" using isValid_total [OF l(2)] by blast
    have idx: "py_index frames (int n) = Inr ?fr"
      using n by (simp add: py_index_def)
    have rv: "lines_of side (rev (take (Suc n) frames)) = l # lines_of side (rev (take n frames))"
      using n l(1) by (simp add: take_Suc_conv_app_nth lines_of_Cons)
    have IH1: "getLastValidLines_loop frames side (int n - 1) (count - 1) (acc @ [l]) =
                 Inr ((acc @ [l]) @ take (nat (count - 1)) (filter valid (lines_of side (rev (take n frames)))))"
      using Suc.IH n by simp
    have IH2: "getLastValidLines_loop frames side (int n - 1) count acc =
                 Inr (acc @ take (nat count) (filter valid (lines_of side (rev (take n frames)))))"
      using Suc.IH n by simp
    have step: "getLastValidLines_loop frames side (int (Suc n) - 1) count acc =
            (if b then getLastValidLines_loop frames side (int n - 1) (count - 1) (acc @ [l])
             else getLastValidLines_loop frames side (int n - 1) count acc)"
      using True by (subst getLastValidLines_loop.simps) (simp add: idx l(1) b)
    have cnt: "nat count = Suc (nat (count - 1))" using True by simp
    show ?thesis
    proof (cases b)
      case True
      then have "valid l" using b by (simp add: valid_def)
      then show ?thesis using True step IH1 rv cnt by simp
    next
      case False
      then have "\<not> valid l" using b by (simp add: valid_def)
      then show ?thesis using False step IH2 rv by simp
    qed
  qed
qed

lemma getLastValidLines_take:
  assumes "wf_tracker st"
  shows "getLastValidLines st side count = Inr (take (nat count) (valid_history st side))"
proof -
  have "frame_number st = int (length (FRAMES st)) - 1" "list_all frame_ok (FRAMES st)"
    using assms by (simp_all add: wf_tracker_def)
  then show ?thesis
    using getLastValidLines_loop_take [of "FRAMES st" "length (FRAMES st)" side count "[]"]
    by (simp add: getLastValidLines_def valid_history_def)
qed


lemma lines_of_append: "lines_of side (a @ b) = lines_of side a @ lines_of side b"
  by (simp add: lines_of_def)

lemma length_lines_of:
  "list_all frame_ok frs \<Longrightarrow> length (lines_of side frs) = length frs"
proof (induction frs)
  case Nil
  show ?case by simp
next
  case (Cons fr frs)
  then obtain l where "side_line side fr = Some l" using frame_ok_side [of fr side] by auto
  with Cons show ?case by (simp add: lines_of_Cons)
qed

text \<open>
  C6. In a well-formed tracker state, where every frame carries one line per
  side, \<^verbatim>\<open>getLastValidLines(side, count)\<close> returns without raising, for every
  side and count, the first \<open>count\<close> valid lines of that side met when walking
  \<^verbatim>\<open>FRAMES\<close> from the current frame back to the first: most recent first, the
  invalid ones skipped. Its length is the minimum of \<open>count\<close> and the number
  of valid lines of that side in the history, which may be zero.
\<close>

theorem getLastValidLines_most_recent_valid:
  assumes "wf_tracker st"
  shows "length (lines_of side (FRAMES st)) = length (FRAMES st) \<and>
         getLastValidLines st side count =
           Inr (take (nat count) (filter valid (lines_of side (rev (FRAMES st))))) \<and>
         (\<exists>ls. getLastValidLines st side count = Inr ls \<and>
               length ls = min (nat count) (length (filter valid (lines_of side (FRAMES st)))))"
proof -
  have "lines_of side (rev frs) = rev (lines_of side frs)" for frs
    by (induction frs) (simp_all add: lines_of_append, simp add: lines_of_def split: option.splits)
  then have "length (filter valid (lines_of side (rev (FRAMES st)))) =
             length (filter valid (lines_of side (FRAMES st)))"
    by (simp add: rev_filter [symmetric])
  moreover have "list_all frame_ok (FRAMES st)" using assms by (simp add: wf_tracker_def)
  ultimately show ?thesis
    using getLastValidLines_take [OF assms, of side count] length_lines_of [of "FRAMES st" side]
    by (simp add: valid_history_def)
qed

theorem getLastValidLines_most_recent_valid_witness:
  "\<exists>V E. Line_init lstsq2 (map snd (block [10..<50] [600..<680])) (map fst (block [10..<50] [600..<680])) 720 True = Inr V \<and>
         Line_init lstsq2 [] [] 720 True = Inr E \<and>
         getLastValidLines
           \<lparr> FRAMES = [\<lparr> fr_frame_number = 0, left_line = Some V, right_line = Some E \<rparr>,
                       \<lparr> fr_frame_number = 1, left_line = Some E, right_line = Some E \<rparr>],
             frame_number = 1 \<rparr> LEFT 1 = Inr [V] \<and>
         getLastValidLines
           \<lparr> FRAMES = [\<lparr> fr_frame_number = 0, left_line = Some V, right_line = Some E \<rparr>,
                       \<lparr> fr_frame_number = 1, left_line = Some E, right_line = Some E \<rparr>],
             frame_number = 1 \<rparr> RIGHT 1 = Inr []"
proof -
  obtain V E where VE:
    "Line_init lstsq2 (map snd (block [10..<50] [600..<680])) (map fst (block [10..<50] [600..<680])) 720 True = Inr V"
    "Line_init lstsq2 [] [] 720 True = Inr E"
    "valid V" "\<not> valid E"
    using example_lines by blast
  let ?st = "\<lparr> FRAMES = [\<lparr> fr_frame_number = 0, left_line = Some V, right_line = Some E \<rparr>,
                       \<lparr> fr_frame_number = 1, left_line = Some E, right_line = Some E \<rparr>],
             frame_number = 1 \<rparr>"
  have wf: "wf_tracker ?st"
    using Line_init_line_ok [OF VE(1)] Line_init_line_ok [OF VE(2)]
    by (simp add: wf_tracker_def frame_ok_def)
  show ?thesis
    using VE getLastValidLines_most_recent_valid [OF wf, of LEFT 1]
      getLastValidLines_most_recent_valid [OF wf, of RIGHT 1]
    by (auto simp: lines_of_def side_line_def)
qed

lemma valid_has_coefficients: "valid l \<Longrightarrow> \<exists>c. line_coefficients l = Some c"
  by (cases "line_coefficients l") (auto simp: valid_def isValid_def split: if_splits)

lemma coefficients_of_valid:
  "list_all valid ls \<Longrightarrow>
     \<exists>rows. coefficients_of ls = Inr rows \<and> map line_coefficients ls = map Some rows"
proof (induction ls)
  case Nil
  show ?case by simp
next
  case (Cons l ls)
  then obtain rows where "coefficients_of ls = Inr rows" "map line_coefficients ls = map Some rows"
    by auto
  moreover have "valid l" using Cons.prems by simp
  then obtain c where "line_coefficients l = Some c"
    using valid_has_coefficients by blast
  ultimately show ?case by simp
qed

lemma coefficients_of_length: "coefficients_of ls = Inr rows \<Longrightarrow> length rows = length ls"
  by (induction ls arbitrary: rows) (auto simp: ebind_eq_Inr)

lemma smoothed_estimate_take:
  assumes "wf_tracker st"
  shows "smoothed_estimate st side = average_coefficients (take 7 (valid_history st side))"
  using getLastValidLines_take [OF assms, of side 7]
  by (simp add: smoothed_estimate_def AVERAGE_OVER_X_FRAMES_def)

text \<open>
  C5. In a well-formed tracker state whose history holds exactly \<open>k\<close> valid
  lines of a side, \<open>1 \<le> k \<le> 7\<close>, the smoothed estimate of that side is the mean,
  coefficient by coefficient, of the coefficients of exactly those \<open>k\<close> lines
  (with no valid line, numpy's mean of nothing: \<open>nan\<close>). When the history
  already holds at least 7 valid lines of the side, putting one more frame
  before the oldest one does not change the estimate.
\<close>

theorem smoothed_estimate_mean:
  assumes "wf_tracker st"
  shows "(length (valid_history st side) = k \<and> 1 \<le> k \<and> k \<le> 7 \<longrightarrow>
            (\<exists>rows. coefficients_of (valid_history st side) = Inr rows \<and>
                    map line_coefficients (valid_history st side) = map Some rows \<and>
                    length rows = k \<and>
                    smoothed_estimate st side =
                      Inr (Mean (sum_list (map fst rows) / real k,
                                 sum_list (map (\<lambda>r. fst (snd r)) rows) / real k,
                                 sum_list (map (\<lambda>r. snd (snd r)) rows) / real k)))) \<and>
         (valid_history st side = [] \<longrightarrow> smoothed_estimate st side = Inr NaN) \<and>
         (7 \<le> length (valid_history st side) \<and> frame_ok older \<longrightarrow>
            smoothed_estimate \<lparr> FRAMES = older # FRAMES st, frame_number = frame_number st + 1 \<rparr> side =
            smoothed_estimate st side)"
proof (intro conjI impI)
  assume k: "length (valid_history st side) = k \<and> 1 \<le> k \<and> k \<le> 7"
  have "list_all valid (valid_history st side)"
    by (simp add: valid_history_def list_all_iff)
  then obtain rows where rows: "coefficients_of (valid_history st side) = Inr rows"
    "map line_coefficients (valid_history st side) = map Some rows"
    using coefficients_of_valid by blast
  have len: "length rows = k" using coefficients_of_length [OF rows(1)] k by simp
  have "rows \<noteq> []" using len k by auto
  then have "smoothed_estimate st side =
               Inr (Mean (sum_list (map fst rows) / real k,
                          sum_list (map (\<lambda>r. fst (snd r)) rows) / real k,
                          sum_list (map (\<lambda>r. snd (snd r)) rows) / real k))"
    using k rows(1) len
    by (simp add: smoothed_estimate_take [OF assms] average_coefficients_def np_mean_axis0_def Let_def)
  with rows len
  show "\<exists>rows. coefficients_of (valid_history st side) = Inr rows \<and>
                    map line_coefficients (valid_history st side) = map Some rows \<and>
                    length rows = k \<and>
                    smoothed_estimate st side =
                      Inr (Mean (sum_list (map fst rows) / real k,
                                 sum_list (map (\<lambda>r. fst (snd r)) rows) / real k,
                                 sum_list (map (\<lambda>r. snd (snd r)) rows) / real k))"
    by blast
next
  assume "valid_history st side = []"
  then show "smoothed_estimate st side = Inr NaN"
    by (simp add: smoothed_estimate_take [OF assms] average_coefficients_def np_mean_axis0_def)
next
  assume a: "7 \<le> length (valid_history st side) \<and> frame_ok older"
  let ?st' = "\<lparr> FRAMES = older # FRAMES st, frame_number = frame_number st + 1 \<rparr>"
  have wf': "wf_tracker ?st'" using assms a by (simp add: wf_tracker_def)
  have "valid_history ?st' side = valid_history st side @ filter valid (lines_of side [older])"
    by (simp add: valid_history_def lines_of_append)
  then have "take 7 (valid_history ?st' side) = take 7 (valid_history st side)"
    using a by simp
  then show "smoothed_estimate ?st' side = smoothed_estimate st side"
    by (simp add: smoothed_estimate_take [OF assms] smoothed_estimate_take [OF wf'])
qed


theorem smoothed_estimate_mean_witness:
  "\<exists>V E. Line_init lstsq2 (map snd (block [10..<50] [600..<680])) (map fst (block [10..<50] [600..<680])) 720 True = Inr V \<and>
         Line_init lstsq2 [] [] 720 True = Inr E \<and>
         smoothed_estimate
           \<lparr> FRAMES = [\<lparr> fr_frame_number = 0, left_line = Some V, right_line = Some E \<rparr>,
                       \<lparr> fr_frame_number = 1, left_line = Some E, right_line = Some E \<rparr>],
             frame_number = 1 \<rparr> LEFT = Inr (Mean (0, 0, 1279 / 2)) \<and>
         smoothed_estimate
           \<lparr> FRAMES = [\<lparr> fr_frame_number = 0, left_line = Some V, right_line = Some E \<rparr>,
                       \<lparr> fr_frame_number = 1, left_line = Some E, right_line = Some E \<rparr>],
             frame_number = 1 \<rparr> RIGHT = Inr NaN \<and>
         smoothed_estimate
           \<lparr> FRAMES = \<lparr> fr_frame_number = 0, left_line = Some E, right_line = Some V \<rparr> #
                      map (\<lambda>n. \<lparr> fr_frame_number = n, left_line = Some V, right_line = Some V \<rparr>)
                          [1, 2, 3, 4, 5, 6, 7],
             frame_number = 6 + 1 \<rparr> RIGHT =
         smoothed_estimate
           \<lparr> FRAMES = map (\<lambda>n. \<lparr> fr_frame_number = n, left_line = Some V, right_line = Some V \<rparr>)
                          [1, 2, 3, 4, 5, 6, 7],
             frame_number = 6 \<rparr> RIGHT"
proof -
  obtain V E where VE:
    "Line_init lstsq2 (map snd (block [10..<50] [600..<680])) (map fst (block [10..<50] [600..<680])) 720 True = Inr V"
    "Line_init lstsq2 [] [] 720 True = Inr E"
    "valid V" "\<not> valid E" "line_coefficients V = Some (0, 0, 1279 / 2)"
    using example_lines by blast
  note ok = Line_init_line_ok [OF VE(1)] Line_init_line_ok [OF VE(2)]
  let ?st = "\<lparr> FRAMES = [\<lparr> fr_frame_number = 0, left_line = Some V, right_line = Some E \<rparr>,
                       \<lparr> fr_frame_number = 1, left_line = Some E, right_line = Some E \<rparr>],
             frame_number = 1 \<rparr>"
  let ?st7 = "\<lparr> FRAMES = map (\<lambda>n. \<lparr> fr_frame_number = n, left_line = Some V, right_line = Some V \<rparr>)
                          [1, 2, 3, 4, 5, 6, 7],
             frame_number = 6 \<rparr>"
  let ?older = "\<lparr> fr_frame_number = 0, left_line = Some E, right_line = Some V \<rparr>"
  have wf: "wf_tracker ?st" using ok by (simp add: wf_tracker_def frame_ok_def)
  have wf7: "wf_tracker ?st7" using ok by (simp add: wf_tracker_def frame_ok_def)
  have vl: "valid_history ?st LEFT = [V]" "valid_history ?st RIGHT = []"
    using VE by (simp_all add: valid_history_def lines_of_def side_line_def)
  have v7: "7 \<le> length (valid_history ?st7 RIGHT) \<and> frame_ok ?older"
    using VE ok by (simp add: valid_history_def lines_of_def side_line_def frame_ok_def)
  have k: "length (valid_history ?st LEFT) = 1 \<and> (1::nat) \<le> 1 \<and> (1::nat) \<le> 7"
    using vl by simp
  show ?thesis
    using VE(1,2,5) vl k v7
      smoothed_estimate_mean [OF wf, of LEFT 1]
      smoothed_estimate_mean [OF wf, of RIGHT 0]
      smoothed_estimate_mean [OF wf7, of RIGHT 0 ?older]
    by auto
qed


section \<open>Searching a frame for lane pixels\<close>

lemma valid_fitted:
  assumes "Line_init pf xs ys h d = Inr l" "valid l"
  shows "0 < h \<and> length (fitx l) = h"
proof -
  have "detected l" using assms(2) by (auto simp: valid_def isValid_def split: if_splits)
  then show ?thesis using Line_init_cases [OF assms(1)] by auto
qed

lemma isValid_valid: "line_ok l \<Longrightarrow> isValid l = Inr (valid l)"
  using isValid_total [of l] by (auto simp: valid_def)

lemma lines_too_close_built:
  assumes "Line_init pf lx ly h dl = Inr l" "Line_init pf rx ry h dr = Inr r"
  shows "lines_too_close l r = Inr (valid l \<and> valid r \<and> min_sampled_gap l r h < 300)"
proof (cases "valid l \<and> valid r")
  case False
  then show ?thesis
    using isValid_valid [OF Line_init_line_ok [OF assms(1)]]
      isValid_valid [OF Line_init_line_ok [OF assms(2)]]
    by (auto simp: lines_too_close_def)
next
  case True
  then have h: "0 < h" "length (fitx l) = h" "length (fitx r) = h"
    using valid_fitted [OF assms(1)] valid_fitted [OF assms(2)] by auto
  let ?g = "map2 (\<lambda>r l. \<bar>r - l\<bar>) (fitx r) (fitx l)"
  have "?g = map (\<lambda>y. \<bar>fitx r ! y - fitx l ! y\<bar>) [0..<h]"
    using h by (auto simp: list_eq_iff_nth_eq)
  then have set: "set ?g = (\<lambda>y. \<bar>fitx r ! y - fitx l ! y\<bar>) ` {0..<h}" by simp
  have ne: "?g \<noteq> []" using h by (cases "fitx r"; cases "fitx l") auto
  have "np_min ?g = Inr (min_sampled_gap l r h)"
    using np_min_Min [OF ne] set by (simp add: min_sampled_gap_def)
  then show ?thesis
    using True isValid_valid [OF Line_init_line_ok [OF assms(1)]]
      isValid_valid [OF Line_init_line_ok [OF assms(2)]]
    by (simp add: lines_too_close_def)
qed

lemma validate_lines_built:
  assumes "Line_init pf lx ly h dl = Inr l" "Line_init pf rx ry h dr = Inr r"
  shows "validate_lines l r =
           Inr (if valid l \<and> valid r \<and> min_sampled_gap l r h < 300
                then (l\<lparr>detected := False\<rparr>, r\<lparr>detected := False\<rparr>) else (l, r))"
  by (simp add: validate_lines_def lines_too_close_built [OF assms])

lemma window_inds_Nil [simp]: "window_inds nzy [] a b c d = []"
  by (simp add: window_inds_def)

lemma fold_window_step_Nil:
  "left_lane_inds (fold (window_step h wh nzy []) ws s) = left_lane_inds s \<and>
   right_lane_inds (fold (window_step h wh nzy []) ws s) = right_lane_inds s"
  by (induction ws arbitrary: s) (simp_all add: window_step_def Let_def)

lemma np_argmax_total: "xs \<noteq> [] \<Longrightarrow> \<exists>i. np_argmax xs = Inr i"
  using np_max_nonempty [of xs] by (auto simp: np_argmax_def)

lemma length_histogram [simp]: "length (histogram img) = img_width img"
  by (simp add: histogram_def)

lemma sliding_window_search_total:
  assumes "2 \<le> img_width img"
  shows "\<exists>li ri. sliding_window_search img nzy nzx = Inr (li, ri) \<and>
                 (nzx = [] \<longrightarrow> li = [] \<and> ri = [])"
proof -
  let ?hist = "histogram img"
  let ?m = "length ?hist div 2"
  have "length (take ?m ?hist) \<noteq> 0" "length (drop ?m ?hist) \<noteq> 0"
    using assms by (simp_all del: length_0_conv)
  then have "take ?m ?hist \<noteq> []" "drop ?m ?hist \<noteq> []" by fastforce+
  then obtain a b where "np_argmax (take ?m ?hist) = Inr a" "np_argmax (drop ?m ?hist) = Inr b"
    using np_argmax_total by blast
  then show ?thesis
    by (auto simp: sliding_window_search_def Let_def fold_window_step_Nil)
qed

lemma poly_inds_Nil [simp]: "poly_inds p nzy [] = []"
  by (simp add: poly_inds_def)

lemma use_sliding_windows_ok:
  assumes "prev_ok pl" "prev_ok pr"
  shows "use_sliding_windows pl pr = Inr (\<not> (\<exists>l r. pl = Some l \<and> pr = Some r \<and> valid l \<and> valid r))"
proof -
  have u: "unusable p = Inr (\<not> (\<exists>l. p = Some l \<and> valid l))" if "prev_ok p" for p
    using that isValid_valid by (cases p) (auto simp: unusable_def prev_ok_def)
  show ?thesis
    using u [OF assms(1)] u [OF assms(2)] by (auto simp: use_sliding_windows_def)
qed

lemma search_pixels_cases:
  assumes "prev_ok pl" "prev_ok pr"
  shows "((\<exists>l r. pl = Some l \<and> pr = Some r \<and> valid l \<and> valid r) \<longrightarrow>
            (\<exists>l r cl cr. pl = Some l \<and> pr = Some r \<and>
               line_coefficients l = Some cl \<and> line_coefficients r = Some cr \<and>
               search_pixels img pl pr nzy nzx = Inr (poly_inds cl nzy nzx, poly_inds cr nzy nzx))) \<and>
         (\<not> (\<exists>l r. pl = Some l \<and> pr = Some r \<and> valid l \<and> valid r) \<longrightarrow>
            search_pixels img pl pr nzy nzx = sliding_window_search img nzy nzx)"
proof (intro conjI impI)
  assume "\<exists>l r. pl = Some l \<and> pr = Some r \<and> valid l \<and> valid r"
  then obtain l r where lr: "pl = Some l" "pr = Some r" "valid l" "valid r" by blast
  then obtain cl cr where c: "line_coefficients l = Some cl" "line_coefficients r = Some cr"
    using valid_has_coefficients by blast
  have "search_pixels img pl pr nzy nzx = Inr (poly_inds cl nzy nzx, poly_inds cr nzy nzx)"
    using lr c use_sliding_windows_ok [OF assms]
    by (simp add: search_pixels_def poly_search_def)
  with lr c show "\<exists>l r cl cr. pl = Some l \<and> pr = Some r \<and>
               line_coefficients l = Some cl \<and> line_coefficients r = Some cr \<and>
               search_pixels img pl pr nzy nzx = Inr (poly_inds cl nzy nzx, poly_inds cr nzy nzx)"
    by blast
next
  assume "\<not> (\<exists>l r. pl = Some l \<and> pr = Some r \<and> valid l \<and> valid r)"
  then show "search_pixels img pl pr nzy nzx = sliding_window_search img nzy nzx"
    using use_sliding_windows_ok [OF assms] by (simp add: search_pixels_def)
qed

lemma search_pixels_total:
  assumes "prev_ok pl" "prev_ok pr" "2 \<le> img_width img"
  shows "\<exists>li ri. search_pixels img pl pr nzy nzx = Inr (li, ri) \<and> (nzx = [] \<longrightarrow> li = [] \<and> ri = [])"
proof (cases "\<exists>l r. pl = Some l \<and> pr = Some r \<and> valid l \<and> valid r")
  case True
  then show ?thesis using search_pixels_cases [OF assms(1,2), of img nzy nzx] by auto
next
  case False
  then show ?thesis
    using search_pixels_cases [OF assms(1,2), of img nzy nzx]
      sliding_window_search_total [OF assms(3), of nzy nzx] by simp
qed


lemma nonzero_height0: "img_height img = 0 \<Longrightarrow> nonzero img = []"
  by (simp add: nonzero_def)

lemma nonzero_blank: "(\<And>y x. img_pixel img y x = 0) \<Longrightarrow> nonzero img = []"
  by (simp add: nonzero_def)

lemma find_lane_pixels_fits:
  assumes "prev_ok pl" "prev_ok pr" "2 \<le> img_width img"
  shows "\<exists>li ri.
           search_pixels img pl pr (map fst (nonzero img)) (map snd (nonzero img)) = Inr (li, ri) \<and>
           find_lane_pixels pf img pl pr =
             ebind (Line_init pf (map (\<lambda>i. map snd (nonzero img) ! i) li)
                      (map (\<lambda>i. map fst (nonzero img) ! i) li) (img_height img) True) (\<lambda>l.
             ebind (Line_init pf (map (\<lambda>i. map snd (nonzero img) ! i) ri)
                      (map (\<lambda>i. map fst (nonzero img) ! i) ri) (img_height img) True) (\<lambda>r.
               validate_lines l r))"
proof -
  let ?nzy = "map fst (nonzero img)" and ?nzx = "map snd (nonzero img)"
  obtain li ri where s: "search_pixels img pl pr ?nzy ?nzx = Inr (li, ri)"
    using search_pixels_total [OF assms, of ?nzy ?nzx] by blast
  then show ?thesis by (simp add: find_lane_pixels_def Let_def)
qed

text \<open>
  C3. Whichever search ran, \<^verbatim>\<open>find_lane_pixels\<close> fits one line per side to the
  pixels the search selected (a fit that raises ends the call) and returns the
  validation of the two fitted lines. In that validation, when both lines are
  valid and the least distance between their sampled curves over all rows of
  the image is below 300, both come out with \<^verbatim>\<open>detected = False\<close>; when one of
  them is not valid or that distance is at least 300, both come out unchanged.
\<close>

theorem cross_validation:
  "(prev_ok pl \<and> prev_ok pr \<and> 2 \<le> img_width img \<longrightarrow>
      (\<exists>li ri.
         search_pixels img pl pr (map fst (nonzero img)) (map snd (nonzero img)) = Inr (li, ri) \<and>
         (\<forall>l r.
            Line_init pf (map (\<lambda>i. map snd (nonzero img) ! i) li)
                      (map (\<lambda>i. map fst (nonzero img) ! i) li) (img_height img) True = Inr l \<and>
            Line_init pf (map (\<lambda>i. map snd (nonzero img) ! i) ri)
                      (map (\<lambda>i. map fst (nonzero img) ! i) ri) (img_height img) True = Inr r \<longrightarrow>
            find_lane_pixels pf img pl pr = validate_lines l r) \<and>
         (\<forall>res. find_lane_pixels pf img pl pr = Inr res \<longrightarrow>
            (\<exists>l r.
               Line_init pf (map (\<lambda>i. map snd (nonzero img) ! i) li)
                      (map (\<lambda>i. map fst (nonzero img) ! i) li) (img_height img) True = Inr l \<and>
               Line_init pf (map (\<lambda>i. map snd (nonzero img) ! i) ri)
                      (map (\<lambda>i. map fst (nonzero img) ! i) ri) (img_height img) True = Inr r \<and>
               validate_lines l r = Inr res)))) \<and>
   (Line_init pf lx ly h dl = Inr new_left \<and> Line_init pf rx ry h dr = Inr new_right \<longrightarrow>
      (\<exists>l' r'. validate_lines new_left new_right = Inr (l', r') \<and>
         (valid new_left \<and> valid new_right \<and> min_sampled_gap new_left new_right h < 300 \<longrightarrow>
            l' = new_left\<lparr>detected := False\<rparr> \<and> r' = new_right\<lparr>detected := False\<rparr> \<and>
            \<not> detected l' \<and> \<not> detected r') \<and>
         (\<not> valid new_left \<or> \<not> valid new_right \<or> 300 \<le> min_sampled_gap new_left new_right h \<longrightarrow>
            l' = new_left \<and> r' = new_right)))"
proof (intro conjI impI)
  assume "prev_ok pl \<and> prev_ok pr \<and> 2 \<le> img_width img"
  then obtain li ri where s:
    "search_pixels img pl pr (map fst (nonzero img)) (map snd (nonzero img)) = Inr (li, ri)"
    "find_lane_pixels pf img pl pr =
             ebind (Line_init pf (map (\<lambda>i. map snd (nonzero img) ! i) li)
                      (map (\<lambda>i. map fst (nonzero img) ! i) li) (img_height img) True) (\<lambda>l.
             ebind (Line_init pf (map (\<lambda>i. map snd (nonzero img) ! i) ri)
                      (map (\<lambda>i. map fst (nonzero img) ! i) ri) (img_height img) True) (\<lambda>r.
               validate_lines l r))"
    using find_lane_pixels_fits [of pl pr img pf] by blast
  show "\<exists>li ri.
         search_pixels img pl pr (map fst (nonzero img)) (map snd (nonzero img)) = Inr (li, ri) \<and>
         (\<forall>l r.
            Line_init pf (map (\<lambda>i. map snd (nonzero img) ! i) li)
                      (map (\<lambda>i. map fst (nonzero img) ! i) li) (img_height img) True = Inr l \<and>
            Line_init pf (map (\<lambda>i. map snd (nonzero img) ! i) ri)
                      (map (\<lambda>i. map fst (nonzero img) ! i) ri) (img_height img) True = Inr r \<longrightarrow>
            find_lane_pixels pf img pl pr = validate_lines l r) \<and>
         (\<forall>res. find_lane_pixels pf img pl pr = Inr res \<longrightarrow>
            (\<exists>l r.
               Line_init pf (map (\<lambda>i. map snd (nonzero img) ! i) li)
                      (map (\<lambda>i. map fst (nonzero img) ! i) li) (img_height img) True = Inr l \<and>
               Line_init pf (map (\<lambda>i. map snd (nonzero img) ! i) ri)
                      (map (\<lambda>i. map fst (nonzero img) ! i) ri) (img_height img) True = Inr r \<and>
               validate_lines l r = Inr res))"
    using s by (intro exI [of _ li] exI [of _ ri]) (auto simp: ebind_eq_Inr)
next
  assume a: "Line_init pf lx ly h dl = Inr new_left \<and> Line_init pf rx ry h dr = Inr new_right"
  then have b: "Line_init pf lx ly h dl = Inr new_left" "Line_init pf rx ry h dr = Inr new_right"
    by simp_all
  show "\<exists>l' r'. validate_lines new_left new_right = Inr (l', r') \<and>
         (valid new_left \<and> valid new_right \<and> min_sampled_gap new_left new_right h < 300 \<longrightarrow>
            l' = new_left\<lparr>detected := False\<rparr> \<and> r' = new_right\<lparr>detected := False\<rparr> \<and>
            \<not> detected l' \<and> \<not> detected r') \<and>
         (\<not> valid new_left \<or> \<not> valid new_right \<or> 300 \<le> min_sampled_gap new_left new_right h \<longrightarrow>
            l' = new_left \<and> r' = new_right)"
    using validate_lines_built [OF b] by auto
qed

lemma constant_gap:
  assumes "fitx l = replicate h a" "fitx r = replicate h b" "0 < h"
  shows "min_sampled_gap l r h = \<bar>b - a\<bar>"
proof -
  have "(\<lambda>y. \<bar>fitx r ! y - fitx l ! y\<bar>) ` {0..<h} = {\<bar>b - a\<bar>}"
    using assms by (auto simp: image_iff)
  then show ?thesis by (simp add: min_sampled_gap_def)
qed

theorem cross_validation_witness:
  "(\<exists>li ri.
      search_pixels \<lparr> img_height = 720, img_width = 1280, img_pixel = (\<lambda>y x. 0) \<rparr> None None
          (map fst (nonzero \<lparr> img_height = 720, img_width = 1280, img_pixel = (\<lambda>y x. 0) \<rparr>))
          (map snd (nonzero \<lparr> img_height = 720, img_width = 1280, img_pixel = (\<lambda>y x. 0) \<rparr>)) = Inr (li, ri)) \<and>
   (\<exists>V W. Line_init lstsq2 (map snd (block [10..<50] [600..<680])) (map fst (block [10..<50] [600..<680])) 720 True = Inr V \<and>
          Line_init lstsq2 (map snd (block [10..<50] [700..<780])) (map fst (block [10..<50] [700..<780])) 720 True = Inr W \<and>
          valid V \<and> valid W \<and> min_sampled_gap V W 720 = 100 \<and>
          validate_lines V W = Inr (V\<lparr>detected := False\<rparr>, W\<lparr>detected := False\<rparr>))"
proof -
  let ?B = "\<lparr> img_height = 720, img_width = 1280, img_pixel = (\<lambda>y x. 0::real) \<rparr>"
  have lv: "3000 < 40 * length [600..<680]" and lw: "3000 < 40 * length [700..<780]" by simp_all
  obtain V where V: "Line_init lstsq2 (map snd (block [10..<50] [600..<680])) (map fst (block [10..<50] [600..<680])) 720 True = Inr V" "valid V" "fitx V = replicate 720 (1279 / 2)"
    using block_line [OF lv, of True] by (auto simp: cols_sums)
  obtain W where W: "Line_init lstsq2 (map snd (block [10..<50] [700..<780])) (map fst (block [10..<50] [700..<780])) 720 True = Inr W" "valid W" "fitx W = replicate 720 (1479 / 2)"
    using block_line [OF lw, of True] by (auto simp: cols_sums)
  have gap: "min_sampled_gap V W 720 = 100"
    using constant_gap [OF V(3) W(3)] by simp
  have ok: "prev_ok None \<and> prev_ok None \<and> 2 \<le> img_width ?B" by (simp add: prev_ok_def)
  have built: "Line_init lstsq2 (map snd (block [10..<50] [600..<680])) (map fst (block [10..<50] [600..<680])) 720 True = Inr V \<and>
               Line_init lstsq2 (map snd (block [10..<50] [700..<780])) (map fst (block [10..<50] [700..<780])) 720 True = Inr W"
    using V(1) W(1) by simp
  have part1: "\<exists>li ri.
      search_pixels ?B None None (map fst (nonzero ?B)) (map snd (nonzero ?B)) = Inr (li, ri)"
    using ok cross_validation [of None None ?B lstsq2] by blast
  have part2: "validate_lines V W = Inr (V\<lparr>detected := False\<rparr>, W\<lparr>detected := False\<rparr>)"
    using built V(2) W(2) gap
      cross_validation [of None None ?B lstsq2
         "map snd (block [10..<50] [600..<680])" "map fst (block [10..<50] [600..<680])" 720 True V
         "map snd (block [10..<50] [700..<780])" "map fst (block [10..<50] [700..<780])" True W]
    by auto
  show ?thesis using part1 part2 V W(1,2) gap by blast
qed

lemma poly_inds_iff:
  "i \<in> set (poly_inds p nzy nzx) \<longleftrightarrow>
     i < length nzx \<and> \<bar>real_of_int (nzx ! i) - polyval p (real_of_int (nzy ! i))\<bar> < 50"
  by (auto simp: poly_inds_def poly_margin_def)

lemma previous_lines_wf:
  assumes "wf_tracker st"
  shows "previous_lines (st\<lparr>frame_number := frame_number st + 1\<rparr>) =
           Inr (if FRAMES st = [] then (None, None)
                else (left_line (last (FRAMES st)), right_line (last (FRAMES st))))"
proof (cases "FRAMES st = []")
  case True
  then show ?thesis using assms by (simp add: previous_lines_def wf_tracker_def)
next
  case False
  moreover have "nat (int (length (FRAMES st)) - 1) = length (FRAMES st) - 1"
    by linarith
  ultimately have "py_index (FRAMES st) (int (length (FRAMES st)) - 1) = Inr (last (FRAMES st))"
    by (simp add: py_index_def last_conv_nth)
  then show ?thesis using assms False by (simp add: previous_lines_def wf_tracker_def)
qed

lemma previous_lines_ok:
  assumes "wf_tracker st" "previous_lines (st\<lparr>frame_number := frame_number st + 1\<rparr>) = Inr (pl, pr)"
  shows "prev_ok pl \<and> prev_ok pr"
proof (cases "FRAMES st = []")
  case True
  then show ?thesis using assms previous_lines_wf [OF assms(1)] by (simp add: prev_ok_def)
next
  case False
  then have "frame_ok (last (FRAMES st))"
    using assms(1) by (simp add: wf_tracker_def list_all_iff)
  then show ?thesis
    using False assms(2) previous_lines_wf [OF assms(1)]
    by (auto simp: frame_ok_def prev_ok_def split: option.splits)
qed


text \<open>
  C4. \<^verbatim>\<open>process_frame\<close> hands the lines of the immediately preceding frame to the
  search, or none for the first frame. The search around the previous
  polynomials, which selects exactly the nonzero pixels whose \<open>x\<close> is less than
  50 away from the polynomial at the pixel's \<open>y\<close>, runs if and only if both
  previous lines exist and are valid; in every other case the histogram and
  sliding-window search runs.
\<close>

theorem search_strategy:
  assumes "wf_tracker st"
  shows "\<exists>pl pr.
           previous_lines (st\<lparr>frame_number := frame_number st + 1\<rparr>) = Inr (pl, pr) \<and>
           (FRAMES st = [] \<longrightarrow> pl = None \<and> pr = None) \<and>
           (FRAMES st \<noteq> [] \<longrightarrow>
              pl = left_line (last (FRAMES st)) \<and> pr = right_line (last (FRAMES st))) \<and>
           ((\<exists>l r. pl = Some l \<and> pr = Some r \<and> valid l \<and> valid r) \<longrightarrow>
              (\<exists>l r cl cr. pl = Some l \<and> pr = Some r \<and>
                 line_coefficients l = Some cl \<and> line_coefficients r = Some cr \<and>
                 search_pixels img pl pr nzy nzx =
                   Inr (poly_inds cl nzy nzx, poly_inds cr nzy nzx))) \<and>
           (\<not> (\<exists>l r. pl = Some l \<and> pr = Some r \<and> valid l \<and> valid r) \<longrightarrow>
              search_pixels img pl pr nzy nzx = sliding_window_search img nzy nzx) \<and>
           (\<forall>p i. i \<in> set (poly_inds p nzy nzx) \<longleftrightarrow>
              i < length nzx \<and> \<bar>real_of_int (nzx ! i) - polyval p (real_of_int (nzy ! i))\<bar> < 50)"
proof -
  obtain pl pr where p: "previous_lines (st\<lparr>frame_number := frame_number st + 1\<rparr>) = Inr (pl, pr)"
    "FRAMES st = [] \<longrightarrow> pl = None \<and> pr = None"
    "FRAMES st \<noteq> [] \<longrightarrow> pl = left_line (last (FRAMES st)) \<and> pr = right_line (last (FRAMES st))"
    using previous_lines_wf [OF assms] by (cases "FRAMES st = []") simp_all
  have ok: "prev_ok pl" "prev_ok pr" using previous_lines_ok [OF assms p(1)] by simp_all
  show ?thesis
    using p search_pixels_cases [OF ok, of img nzy nzx] poly_inds_iff [of _ _ nzy nzx]
    by blast
qed

theorem search_strategy_witness:
  "\<exists>V. Line_init lstsq2 (map snd (block [10..<50] [600..<680])) (map fst (block [10..<50] [600..<680])) 720 True = Inr V \<and>
       previous_lines \<lparr> FRAMES = [\<lparr> fr_frame_number = 0, left_line = Some V, right_line = Some V \<rparr>],
                        frame_number = 1 \<rparr> = Inr (Some V, Some V) \<and>
       search_pixels \<lparr> img_height = 720, img_width = 1280, img_pixel = (\<lambda>y x. 0) \<rparr>
                     (Some V) (Some V) [10, 10] [600, 700] = Inr ([0], [0]) \<and>
       previous_lines \<lparr> FRAMES = [], frame_number = 0 \<rparr> = Inr (None, None) \<and>
       search_pixels \<lparr> img_height = 720, img_width = 1280, img_pixel = (\<lambda>y x. 0) \<rparr>
                     None None [10, 10] [600, 700] =
         sliding_window_search \<lparr> img_height = 720, img_width = 1280, img_pixel = (\<lambda>y x. 0) \<rparr>
                     [10, 10] [600, 700]"
proof -
  obtain V where VE:
    "Line_init lstsq2 (map snd (block [10..<50] [600..<680])) (map fst (block [10..<50] [600..<680])) 720 True = Inr V"
    "valid V" "line_coefficients V = Some (0, 0, 1279 / 2)"
    using example_lines by blast
  let ?st = "\<lparr> FRAMES = [\<lparr> fr_frame_number = 0, left_line = Some V, right_line = Some V \<rparr>],
                        frame_number = 0 \<rparr>"
  let ?B = "\<lparr> img_height = 720, img_width = 1280, img_pixel = (\<lambda>y x. 0::real) \<rparr>"
  have wf: "wf_tracker ?st"
    using Line_init_line_ok [OF VE(1)] by (simp add: wf_tracker_def frame_ok_def)
  have wf0: "wf_tracker \<lparr> FRAMES = [], frame_number = - 1 \<rparr>"
    by (simp add: wf_tracker_def)
  have pi0: "poly_inds (0, 0, 1279 / 2) [10, 10] [600, 700] = [0]"
    by (simp add: poly_inds_def polyval_def poly_margin_def upt_rec)
  have pi: "poly_inds (0, 0, b) [10, 10] [600, 700] = [0]" if "b * 2 = 1279" for b :: real
  proof -
    have b: "b = 1279 / 2" using that by simp
    show ?thesis unfolding b by (rule pi0)
  qed
  show ?thesis
    using VE pi search_strategy [OF wf, of ?B "[10, 10]" "[600, 700]"]
      search_strategy [OF wf0, of ?B "[10, 10]" "[600, 700]"]
    by auto
qed


section \<open>Processing a frame\<close>

lemma validate_lines_ok:
  assumes "Line_init pf lx ly h dl = Inr l" "Line_init pf rx ry h dr = Inr r"
    "validate_lines l r = Inr (l', r')"
  shows "line_ok l' \<and> line_ok r'"
  using assms(3) Line_init_line_ok [OF assms(1)] Line_init_line_ok [OF assms(2)]
  unfolding validate_lines_built [OF assms(1,2)]
  by (auto simp: line_ok_def split: if_splits)

text \<open>
  One call on a well-formed state and a mask at least two columns wide: either
  a fit raises inside \<^verbatim>\<open>find_lane_pixels\<close>, and only the frame counter has
  moved, or exactly one frame is appended and the state is well formed again.
\<close>

lemma process_frame_appends:
  assumes "wf_tracker st" "2 \<le> img_width img"
  shows "(\<exists>e. process_frame pf st img = (st\<lparr>frame_number := frame_number st + 1\<rparr>, Inl e)) \<or>
         (\<exists>l r. fst (process_frame pf st img) =
                  st\<lparr> frame_number := frame_number st + 1,
                      FRAMES := FRAMES st @ [\<lparr> fr_frame_number = frame_number st + 1,
                                               left_line = Some l, right_line = Some r \<rparr>] \<rparr> \<and>
               wf_tracker (fst (process_frame pf st img)) \<and>
               snd (process_frame pf st img) =
                 measurements (fst (process_frame pf st img)) l r (int (img_width img)))"
proof -
  let ?st1 = "st\<lparr>frame_number := frame_number st + 1\<rparr>"
  obtain pl pr where p: "previous_lines ?st1 = Inr (pl, pr)"
    using previous_lines_wf [OF assms(1)] by (cases "FRAMES st = []") simp_all
  have ok: "prev_ok pl" "prev_ok pr" using previous_lines_ok [OF assms(1) p] by simp_all
  show ?thesis
  proof (cases "find_lane_pixels pf img pl pr")
    case (Inl e)
    then have "process_frame pf st img = (?st1, Inl e)"
      using p by (simp add: process_frame_def Let_def)
    then show ?thesis by blast
  next
    case (Inr res)
    obtain l' r' where res: "res = (l', r')" by (cases res)
    obtain li ri where f:
      "find_lane_pixels pf img pl pr =
         ebind (Line_init pf (map (\<lambda>i. map snd (nonzero img) ! i) li)
                  (map (\<lambda>i. map fst (nonzero img) ! i) li) (img_height img) True) (\<lambda>l.
         ebind (Line_init pf (map (\<lambda>i. map snd (nonzero img) ! i) ri)
                  (map (\<lambda>i. map fst (nonzero img) ! i) ri) (img_height img) True) (\<lambda>r.
           validate_lines l r))"
      using find_lane_pixels_fits [OF ok assms(2), of pf] by blast
    obtain l r where lr:
      "Line_init pf (map (\<lambda>i. map snd (nonzero img) ! i) li)
                  (map (\<lambda>i. map fst (nonzero img) ! i) li) (img_height img) True = Inr l"
      "Line_init pf (map (\<lambda>i. map snd (nonzero img) ! i) ri)
                  (map (\<lambda>i. map fst (nonzero img) ! i) ri) (img_height img) True = Inr r"
      "validate_lines l r = Inr (l', r')"
      using Inr res unfolding f by (auto simp: ebind_eq_Inr)
    have lok: "line_ok l'" "line_ok r'" using validate_lines_ok [OF lr] by simp_all
    let ?st2 = "st\<lparr> frame_number := frame_number st + 1,
                     FRAMES := FRAMES st @ [\<lparr> fr_frame_number = frame_number st + 1,
                                              left_line = Some l', right_line = Some r' \<rparr>] \<rparr>"
    have pfr: "process_frame pf st img = (?st2, measurements ?st2 l' r' (int (img_width img)))"
      using p Inr res by (simp add: process_frame_def Let_def Frame_init_def)
    have "wf_tracker ?st2"
      using assms(1) lok by (simp add: wf_tracker_def frame_ok_def)
    then show ?thesis using pfr by auto
  qed
qed

lemma process_frame_blank:
  assumes "\<And>y x. img_pixel img y x = 0" "2 \<le> img_width img"
  shows "process_frame pf initial_tracker img =
           (\<lparr> FRAMES = [\<lparr> fr_frame_number = 0,
                          left_line = Some \<lparr> fitx = [], fity = [], lane_pixels_x = [], lane_pixels_y = [],
                                              detected = False, line_coefficients = None, curvature = None,
                                              upper_slope = None, mid_slope = None, lower_slope = None \<rparr>,
                          right_line = Some \<lparr> fitx = [], fity = [], lane_pixels_x = [], lane_pixels_y = [],
                                              detected = False, line_coefficients = None, curvature = None,
                                              upper_slope = None, mid_slope = None, lower_slope = None \<rparr> \<rparr>],
              frame_number = 0 \<rparr>,
            Inl IndexError)"
proof -
  let ?E = "\<lparr> fitx = [], fity = [], lane_pixels_x = [], lane_pixels_y = [],
              detected = False, line_coefficients = None, curvature = None,
              upper_slope = None, mid_slope = None, lower_slope = None \<rparr>"
  let ?st2 = "\<lparr> FRAMES = [\<lparr> fr_frame_number = 0, left_line = Some ?E, right_line = Some ?E \<rparr>],
               frame_number = 0 \<rparr>"
  have nz: "nonzero img = []" using assms(1) by (rule nonzero_blank)
  have sw: "sliding_window_search img [] [] = Inr ([], [])"
    using sliding_window_search_total [OF assms(2), of "[]" "[]"] by auto
  have flp: "find_lane_pixels pf img None None = Inr (?E, ?E)"
    by (simp add: find_lane_pixels_def Let_def nz search_pixels_def use_sliding_windows_def
          unusable_def sw Line_init_def validate_lines_def lines_too_close_def isValid_def)
  have wf: "wf_tracker ?st2" by (simp add: wf_tracker_def frame_ok_def line_ok_def)
  have "\<not> valid ?E" by (simp add: valid_def isValid_def)
  then have "getLastValidLines ?st2 LEFT 1 = Inr []"
    using getLastValidLines_take [OF wf, of LEFT 1]
    by (simp add: valid_history_def lines_of_def side_line_def)
  then have "measurements ?st2 ?E ?E (int (img_width img)) = Inl IndexError"
    by (simp add: measurements_def current_line_def isValid_def py_index_def)
  then show ?thesis
    using flp
    by (simp add: process_frame_def initial_tracker_def previous_lines_def Let_def Frame_init_def)
qed

text \<open>
  C2. The first frame of a run, with a mask that has no nonzero pixel:
  \<^verbatim>\<open>process_frame\<close> appends the frame, whose two lines are both invalid, and then
  raises \<^verbatim>\<open>IndexError\<close> on \<^verbatim>\<open>getLastValidLines(Side.LEFT, 1)[0]\<close>, the history
  holding no valid left line.
\<close>

theorem process_frame_blank_first_frame_raises:
  "process_frame (\<lambda>ys xs. (0, 0, sum_list xs / real (length xs))) initial_tracker
       \<lparr> img_height = 720, img_width = 1280, img_pixel = (\<lambda>y x. 0) \<rparr> =
     (\<lparr> FRAMES = [\<lparr> fr_frame_number = 0,
                    left_line = Some \<lparr> fitx = [], fity = [], lane_pixels_x = [], lane_pixels_y = [],
                                        detected = False, line_coefficients = None, curvature = None,
                                        upper_slope = None, mid_slope = None, lower_slope = None \<rparr>,
                    right_line = Some \<lparr> fitx = [], fity = [], lane_pixels_x = [], lane_pixels_y = [],
                                        detected = False, line_coefficients = None, curvature = None,
                                        upper_slope = None, mid_slope = None, lower_slope = None \<rparr> \<rparr>],
        frame_number = 0 \<rparr>,
      Inl IndexError)"
  by (rule process_frame_blank) simp_all

end
